theory Spec2Isabelle
  imports Main "HOL-Library.Word"
begin

unbundle bit_operations_syntax

chapter \<open>The embedding\<close>

section \<open>Runtime values shared by the modules\<close>

text \<open>
  A \<open>Buffer\<close> is a list of bytes. A thrown JavaScript exception is a value of
  \<open>js_error\<close>; a function that can throw returns \<open>js_error + 'a\<close> with \<open>Inl\<close>
  for the exception. \<open>StopPropagation\<close> is the class of that name in the update
  module (a subclass of \<open>Error\<close> recognised by \<open>instanceof\<close>).
\<close>

type_synonym byte = "8 word"
type_synonym buffer = "byte list"

datatype js_error = Error string | TypeError string | StopPropagation

section \<open>crypto/IGE.ts\<close>

text \<open>
  The class holds the two buffers given to its constructor. The constructor throws unless
  both have 32 bytes.
\<close>

record IGE =
  key :: buffer
  iv :: buffer

definition IGE_new :: "buffer \<Rightarrow> buffer \<Rightarrow> js_error + IGE" where
  "IGE_new k v =
     (if length k \<noteq> 32 then Inl (Error ''Key must be 32 bytes (AES-256)'')
      else if length v \<noteq> 32 then Inl (Error ''IV must be 32 bytes (2 * block size)'')
      else Inr \<lparr>key = k, iv = v\<rparr>)"

text \<open>
  \<open>xorBuffers(a, b)\<close> allocates \<open>a.length\<close> bytes and stores \<open>a[i] ^ b[i]\<close>. Past the
  end of \<open>b\<close> the read \<open>b[i]\<close> is \<open>undefined\<close>, which \<open>^\<close> converts to 0, so the
  byte of \<open>a\<close> is kept.
\<close>

fun xorBuffers :: "buffer \<Rightarrow> buffer \<Rightarrow> buffer" where
  "xorBuffers [] b = []"
| "xorBuffers (x # a) [] = (x XOR 0) # xorBuffers a []"
| "xorBuffers (x # a) (y # b) = (x XOR y) # xorBuffers a b"

text \<open>
  \<open>buf.slice(start, end)\<close> with both indices clamped to the length, and
  \<open>src.copy(target, targetStart)\<close>, which overwrites the target from \<open>targetStart\<close>
  with as many bytes of the source as fit and never changes the target's length. Both loops
  call \<open>copy\<close> with \<open>targetStart\<close> below the target's length only.
\<close>

definition slice :: "buffer \<Rightarrow> nat \<Rightarrow> nat \<Rightarrow> buffer" where
  "slice b start stop = take (stop - start) (drop start b)"

definition copy :: "buffer \<Rightarrow> buffer \<Rightarrow> nat \<Rightarrow> buffer" where
  "copy src target targetStart =
     (if length target \<le> targetStart then target
      else take targetStart target @ take (length target - targetStart) src
             @ drop (targetStart + length src) target)"

text \<open>
  The AES primitive is the runtime's (\<open>node:crypto\<close>), not this repository's: it is the
  parameter \<open>E\<close> (respectively \<open>D\<close>), a function of the key and the data. What the
  wrappers \<open>aesEncryptBlock\<close> and \<open>aesDecryptBlock\<close> add is modelled: the cipher object
  is created for \<open>aes-256-ecb\<close>, which refuses a key that is not 32 bytes long, and with
  automatic padding off \<open>final()\<close> throws when the data is not a whole number of blocks.
\<close>

type_synonym aes = "buffer \<Rightarrow> buffer \<Rightarrow> buffer"

definition aesEncryptBlock :: "aes \<Rightarrow> IGE \<Rightarrow> buffer \<Rightarrow> js_error + buffer" where
  "aesEncryptBlock E c block =
     (if length (key c) \<noteq> 32 then Inl (Error ''Invalid key length'')
      else if length block mod 16 \<noteq> 0 then Inl (Error ''wrong final block length'')
      else Inr (E (key c) block))"

definition aesDecryptBlock :: "aes \<Rightarrow> IGE \<Rightarrow> buffer \<Rightarrow> js_error + buffer" where
  "aesDecryptBlock D c block =
     (if length (key c) \<noteq> 32 then Inl (Error ''Invalid key length'')
      else if length block mod 16 \<noteq> 0 then Inl (Error ''wrong final block length'')
      else Inr (D (key c) block))"

text \<open>
  The \<open>for\<close> loop of \<open>encryptIge\<close>: \<open>i\<close> is the loop counter, \<open>prevCipher\<close> and
  \<open>prevPlain\<close> the chaining variables, \<open>output\<close> the buffer allocated before the loop.
\<close>

function encryptIge_loop ::
  "aes \<Rightarrow> IGE \<Rightarrow> buffer \<Rightarrow> nat \<Rightarrow> buffer \<Rightarrow> buffer \<Rightarrow> buffer \<Rightarrow> js_error + buffer" where
  "encryptIge_loop E c plainText i prevCipher prevPlain output =
     (if i < length plainText then
        (let plainBlock = slice plainText i (i + 16);
             xored = xorBuffers plainBlock prevCipher
         in case aesEncryptBlock E c xored of
              Inl e \<Rightarrow> Inl e
            | Inr encrypted \<Rightarrow>
                (let cipherBlock = xorBuffers encrypted prevPlain
                 in encryptIge_loop E c plainText (i + 16) cipherBlock plainBlock
                      (copy cipherBlock output i)))
      else Inr output)"
  by pat_completeness auto
termination
  by (relation "measure (\<lambda>(E, c, plainText, i, prevCipher, prevPlain, output). length plainText - i)")
     auto

text \<open>
  \<open>encryptIge\<close>. \<open>Helpers.generateRandomBytes\<close> is the parameter \<open>generateRandomBytes\<close>:
  a function from the number of bytes asked for to the bytes delivered.
\<close>

definition encryptIge :: "aes \<Rightarrow> (nat \<Rightarrow> buffer) \<Rightarrow> IGE \<Rightarrow> buffer \<Rightarrow> js_error + buffer" where
  "encryptIge E generateRandomBytes c plainText =
     (let blockSize = 16;
          padding = length plainText mod blockSize;
          plainText' = (if padding \<noteq> 0
                        then plainText @ generateRandomBytes (blockSize - padding)
                        else plainText);
          iv1 = slice (iv c) 0 blockSize;
          iv2 = slice (iv c) blockSize (2 * blockSize)
      in encryptIge_loop E c plainText' 0 iv1 iv2 (replicate (length plainText') 0))"

function decryptIge_loop ::
  "aes \<Rightarrow> IGE \<Rightarrow> buffer \<Rightarrow> nat \<Rightarrow> buffer \<Rightarrow> buffer \<Rightarrow> buffer \<Rightarrow> js_error + buffer" where
  "decryptIge_loop D c cipherText i prevCipher prevPlain output =
     (if i < length cipherText then
        (let cipherBlock = slice cipherText i (i + 16);
             xored = xorBuffers cipherBlock prevPlain
         in case aesDecryptBlock D c xored of
              Inl e \<Rightarrow> Inl e
            | Inr decrypted \<Rightarrow>
                (let plainBlock = xorBuffers decrypted prevCipher
                 in decryptIge_loop D c cipherText (i + 16) cipherBlock plainBlock
                      (copy plainBlock output i)))
      else Inr output)"
  by pat_completeness auto
termination
  by (relation "measure (\<lambda>(D, c, cipherText, i, prevCipher, prevPlain, output). length cipherText - i)")
     auto

definition decryptIge :: "aes \<Rightarrow> IGE \<Rightarrow> buffer \<Rightarrow> js_error + buffer" where
  "decryptIge D c cipherText =
     (let blockSize = 16 in
      if length cipherText mod blockSize \<noteq> 0
      then Inl (Error ''Cipher text must be multiple of 16 bytes'')
      else
        (let iv1 = slice (iv c) 0 blockSize;
             iv2 = slice (iv c) blockSize (2 * blockSize)
         in decryptIge_loop D c cipherText 0 iv1 iv2 (replicate (length cipherText) 0)))"

text \<open>
  The two passes written block by block, for the proofs: what the encryption loop leaves in
  the output from a block boundary on, and likewise for the decryption loop.
\<close>

function ige_encrypt_blocks :: "aes \<Rightarrow> buffer \<Rightarrow> buffer \<Rightarrow> buffer \<Rightarrow> buffer \<Rightarrow> buffer" where
  "ige_encrypt_blocks E k prevCipher prevPlain p =
     (if p = [] then []
      else (let plainBlock = take 16 p;
                cipherBlock = xorBuffers (E k (xorBuffers plainBlock prevCipher)) prevPlain
            in cipherBlock @ ige_encrypt_blocks E k cipherBlock plainBlock (drop 16 p)))"
  by pat_completeness auto
termination
  by (relation "measure (\<lambda>(E, k, prevCipher, prevPlain, p). length p)") auto

function ige_decrypt_blocks :: "aes \<Rightarrow> buffer \<Rightarrow> buffer \<Rightarrow> buffer \<Rightarrow> buffer \<Rightarrow> buffer" where
  "ige_decrypt_blocks D k prevCipher prevPlain ct =
     (if ct = [] then []
      else (let cipherBlock = take 16 ct;
                plainBlock = xorBuffers (D k (xorBuffers cipherBlock prevPlain)) prevCipher
            in plainBlock @ ige_decrypt_blocks D k cipherBlock plainBlock (drop 16 ct)))"
  by pat_completeness auto
termination
  by (relation "measure (\<lambda>(D, k, prevCipher, prevPlain, ct). length ct)") auto

declare encryptIge_loop.simps [simp del] decryptIge_loop.simps [simp del]
  ige_encrypt_blocks.simps [simp del] ige_decrypt_blocks.simps [simp del]

text \<open>
  What the round trip needs of the AES primitive under a 32-byte key: both directions map
  a block to a block, and decrypting an encrypted block gives the block back.
\<close>

definition aes_block_cipher :: "aes \<Rightarrow> aes \<Rightarrow> bool" where
  "aes_block_cipher E D \<longleftrightarrow>
     (\<forall>k b. length k = 32 \<and> length b = 16 \<longrightarrow> length (E k b) = 16 \<and> length (D k b) = 16 \<and> D k (E k b) = b)"

section \<open>The crypto module (src/unnamed/part_003, lines 125 to 201) and crypto/CTR.ts\<close>

text \<open>
  \<open>String.prototype.includes\<close>: the second string occurs in the first.
\<close>

fun includes' :: "string \<Rightarrow> string \<Rightarrow> bool" where
  "includes' [] t = (t = [])"
| "includes' (c # s) t = (take (length t) (c # s) = t \<or> includes' s t)"

text \<open>
  \<open>createCipheriv\<close> and \<open>createDecipheriv\<close> are the runtime's (\<open>node:crypto\<close>): they are
  parameters, functions of the algorithm name, the key and the IV that return a cipher
  object or throw. The class \<open>CTR\<close> of this module creates one of each.
\<close>

type_synonym 'h cipheriv = "string \<Rightarrow> buffer \<Rightarrow> buffer \<Rightarrow> js_error + 'h"

record 'h CTR =
  cipher :: 'h
  decipher :: 'h

definition CTR_new :: "'h cipheriv \<Rightarrow> 'h cipheriv \<Rightarrow> buffer \<Rightarrow> buffer \<Rightarrow> string \<Rightarrow> js_error + 'h CTR" where
  "CTR_new nodeCreateCipheriv nodeCreateDecipheriv k v algorithm =
     (case nodeCreateCipheriv algorithm k v of
        Inl e \<Rightarrow> Inl e
      | Inr c \<Rightarrow>
          (case nodeCreateDecipheriv algorithm k v of
             Inl e \<Rightarrow> Inl e
           | Inr d \<Rightarrow> Inr \<lparr>cipher = c, decipher = d\<rparr>))"

definition createDecipher :: "'h cipheriv \<Rightarrow> 'h cipheriv \<Rightarrow> string \<Rightarrow> buffer \<Rightarrow> buffer \<Rightarrow> js_error + 'h CTR" where
  "createDecipher nodeCreateCipheriv nodeCreateDecipheriv algorithm k v =
     (if includes' algorithm ''ECB'' then Inl (Error ''ECB mode is not supported'')
      else CTR_new nodeCreateCipheriv nodeCreateDecipheriv k v algorithm)"

definition createCipher :: "'h cipheriv \<Rightarrow> 'h cipheriv \<Rightarrow> string \<Rightarrow> buffer \<Rightarrow> buffer \<Rightarrow> js_error + 'h CTR" where
  "createCipher nodeCreateCipheriv nodeCreateDecipheriv algorithm k v =
     (if includes' algorithm ''ECB'' then Inl (Error ''ECB mode is not supported'')
      else CTR_new nodeCreateCipheriv nodeCreateDecipheriv k v algorithm)"

text \<open>
  The constructor of the class \<open>CTR\<close> of \<open>crypto/CTR.ts\<close>, which takes no algorithm: the
  key and the IV are buffers by their type, the IV must have 16 bytes, and the cipher is
  created for \<open>AES-256-CTR\<close>.
\<close>

definition CTR_ts_new :: "'h cipheriv \<Rightarrow> buffer \<Rightarrow> buffer \<Rightarrow> js_error + 'h" where
  "CTR_ts_new nodeCreateCipheriv k v =
     (if length v \<noteq> 16 then Inl (Error ''Key and iv need to be a buffer'')
      else nodeCreateCipheriv ''AES-256-CTR'' k v)"

text \<open>
  The runtime's \<open>createCipheriv\<close> on the two algorithm names that this repository itself
  passes to it, \<open>aes-256-ecb\<close> in \<open>IGE.ts\<close> (with no IV) and \<open>AES-256-CTR\<close> in \<open>CTR.ts\<close>:
  for these it checks the lengths of the key and of the IV and returns a cipher object,
  which is given here by the three arguments. It stands for \<open>createDecipheriv\<close> as well.
\<close>

definition node_cipheriv :: "(string \<times> buffer \<times> buffer) cipheriv" where
  "node_cipheriv algorithm k v =
     (if algorithm = ''aes-256-ecb'' then
        (if length k \<noteq> 32 then Inl (Error ''Invalid key length'')
         else if v \<noteq> [] then Inl (Error ''Invalid initialization vector'')
         else Inr (algorithm, k, v))
      else if algorithm = ''AES-256-CTR'' then
        (if length k \<noteq> 32 then Inl (Error ''Invalid key length'')
         else if length v \<noteq> 16 then Inl (Error ''Invalid initialization vector'')
         else Inr (algorithm, k, v))
      else Inl (Error ''Unknown cipher''))"

section \<open>The update module (src/teleproto/crypto/CTR.ts, lines 93 to 569)\<close>

text \<open>
  The names are the source's without the leading underscore, which an Isabelle name cannot
  start with: \<open>handleUpdate\<close> is \<open>_handleUpdate\<close>, the field \<open>updateState\<close> is
  \<open>client._updateState\<close>, and so on.
\<close>

subsection \<open>Decoded objects\<close>

text \<open>
  \<open>utils.getPeerId\<close> is outside the sources. An entity (a user or a chat) therefore carries
  the peer id that function computes for it, \<open>None\<close> when the function throws on it, next to
  a number standing for its content.
\<close>

datatype entity = Entity "int option" nat

fun getPeerId :: "entity \<Rightarrow> js_error + int" where
  "getPeerId (Entity None n) = Inl (Error ''Cannot find peer id'')"
| "getPeerId (Entity (Some i) n) = Inr i"

text \<open>The three constructors of \<open>Api.TypeMessage\<close>, with a number for the content.\<close>

datatype message = Message nat | MessageService nat | MessageEmpty nat

text \<open>
  The objects the module tells apart with \<open>instanceof\<close>: the two containers, the short
  wrapper, the synthetic new-message update, the connection-state update of the network
  layer, and every other update, which the module passes on unread.
\<close>

datatype update_object =
    Updates "entity list" "entity list" "update_object list"
  | UpdatesCombined "entity list" "entity list" "update_object list"
  | UpdateShort update_object
  | UpdateNewMessage message int int
  | UpdateConnectionState int
  | OtherUpdate nat

text \<open>The argument of \<open>handleUpdate\<close>, of type \<open>Api.TypeUpdate | number\<close>.\<close>

datatype js_value = Num int | Obj update_object

record UpdateState =
  pts :: int
  qts :: int
  date :: int
  seq :: int

record difference_body =
  newMessages :: "message list"
  otherUpdates :: "update_object list"
  chats :: "entity list"
  users :: "entity list"

text \<open>
  \<open>Api.updates.TypeDifference\<close>: \<open>DifferenceEmpty\<close> holds \<open>date\<close> and \<open>seq\<close>,
  \<open>Difference\<close> its lists and \<open>state\<close>, \<open>DifferenceSlice\<close> its lists and
  \<open>intermediateState\<close>, \<open>DifferenceTooLong\<close> holds \<open>pts\<close>.
\<close>

datatype difference =
    DifferenceEmpty int int
  | Difference difference_body UpdateState
  | DifferenceSlice difference_body UpdateState
  | DifferenceTooLong int

subsection \<open>The client\<close>

text \<open>
  The argument of \<open>dispatchUpdate\<close>: the update, the \<open>others\<close> list (\<open>None\<close> for
  \<open>null\<close> or absent) and the \<open>_entities\<close> map that \<open>processUpdate\<close> stores on the update
  (\<open>None\<close> when none was stored).
\<close>

record dispatch_args =
  update :: update_object
  others :: "update_object list option"
  entities :: "(int \<rightharpoonup> entity) option"

text \<open>
  An event is what a builder's \<open>build\<close> returns; its class is outside the sources. It is
  given by its content, of the type \<open>'e\<close>, and by how each statement of the dispatch loop
  that writes to it or tests it ends, in the order of the source:

  \<^item> \<open>assign_client\<close>: \<open>event._client = client\<close>;
  \<^item> \<open>has_eventName\<close>: \<open>"_eventName" in event\<close>;
  \<^item> \<open>call_setClient\<close>: \<open>event._setClient(client)\<close>;
  \<^item> \<open>assign_originalUpdate\<close>: \<open>event.originalUpdate = args.update\<close>;
  \<^item> \<open>assign_entities\<close>: \<open>event._entities = args.update._entities\<close>.

  For an assignment and for the call, \<open>None\<close> says that the statement completes and
  \<open>Some e\<close> that it throws \<open>e\<close>; for the test, \<open>Inr\<close> holds its result and \<open>Inl\<close>
  the exception. In strict-mode code an assignment throws on a value that is not an
  object, on an object that is frozen, and when a setter throws; \<open>in\<close> throws on a value
  that is not an object; a call throws when the method is missing or throws.
\<close>

record 'e event =
  payload :: 'e
  assign_client :: "js_error option"
  has_eventName :: "js_error + bool"
  call_setClient :: "js_error option"
  assign_originalUpdate :: "js_error option"
  assign_entities :: "js_error option"

text \<open>
  An event builder (\<open>EventBuilder\<close> of \<open>events/common\<close>, outside the sources) is given by
  what the dispatch loop observes of it: the flag \<open>resolved\<close>; whether \<open>resolve(client)\<close>
  throws (\<open>None\<close>: it returns); what \<open>build\<close> makes of an update and the own user id
  (an event, a falsy value, or an exception); and whether \<open>filter\<close> returns a truthy value
  or throws. A callback is given by how its call ends on an event: \<open>None\<close> when it
  returns, the exception when it throws.
\<close>

record 'e builder =
  resolved :: bool
  resolve :: "js_error option"
  build :: "update_object \<Rightarrow> int option \<Rightarrow> js_error + 'e event option"
  filter' :: "'e event \<Rightarrow> js_error + bool"

type_synonym 'e callback = "'e event \<Rightarrow> js_error option"

datatype log_level = Debug | Warn | Err

datatype request = GetState | GetDifference int int int

datatype cached = OfUpdate js_value | OfDifference difference

text \<open>
  The client, as far as this module reads and writes it.

  \<^item> \<open>errorHandler\<close>: the optional global handler; applied to an exception it gives \<open>None\<close>
    when the handler returns and the exception it throws otherwise.
  \<^item> \<open>getMe\<close>: how \<open>client.getMe(true)\<close> ends, the own user id or an exception.
  \<^item> The remaining fields record effects in the order they happen: \<open>requests\<close> the
    requests sent, \<open>logged\<close> the calls of \<open>client._log\<close> (level, text, and the exception
    the text interpolates), \<open>entityCache\<close> and \<open>sessionEntities\<close> the arguments of
    \<open>_entityCache.add\<close> and \<open>session.processEntities\<close>, \<open>dispatched\<close> the arguments of the
    calls of \<open>dispatchUpdate\<close>, \<open>called\<close> the callback invocations (position of the
    pair in the registry, and the event), \<open>handled\<close> the exceptions passed to the
    error handler.
\<close>

record 'e client =
  updateState :: "UpdateState option"
  eventBuilders :: "('e builder option \<times> 'e callback option) list"
  selfInputPeer :: "int option"
  errorHandler :: "(js_error \<Rightarrow> js_error option) option"
  getMe :: "js_error + int"
  requests :: "request list"
  logged :: "(log_level \<times> string \<times> js_error option) list"
  entityCache :: "cached list"
  sessionEntities :: "cached list"
  dispatched :: "dispatch_args list"
  called :: "(nat \<times> 'e event) list"
  handled :: "js_error list"

definition log_msg :: "log_level \<Rightarrow> string \<Rightarrow> js_error option \<Rightarrow> 'e client \<Rightarrow> 'e client" where
  "log_msg l m e c = c\<lparr>logged := logged c @ [(l, m, e)]\<rparr>"

subsection \<open>dispatchUpdate\<close>

text \<open>
  How one turn of the \<open>for\<close> loop ends: with the next pair (\<open>continue\<close> or the end of the
  body), with \<open>break\<close>, or with an exception that leaves the function.
\<close>

datatype control = Continue | Break | Throw js_error

text \<open>
  Modelled from the spec: "if the client's own identity is not yet cached, attempt to resolve
  it once (best-effort; failure is silently ignored and dispatch proceeds)". \<open>client.getMe\<close>
  is outside the sources; when it succeeds it caches the identity in \<open>_selfInputPeer\<close>.
\<close>

definition resolve_self :: "'e client \<Rightarrow> 'e client" where
  "resolve_self c =
     (case selfInputPeer c of
        Some uid \<Rightarrow> c
      | None \<Rightarrow> (case getMe c of Inl e \<Rightarrow> c | Inr uid \<Rightarrow> c\<lparr>selfInputPeer := Some uid\<rparr>))"

text \<open>
  The end of the loop body: the callback is awaited; \<open>StopPropagation\<close> breaks the loop; any
  other exception goes to the error handler, if one is set, and is logged. The call of the
  handler is not guarded, so an exception of the handler leaves \<open>dispatchUpdate\<close>.
\<close>

definition run_callback :: "'e client \<Rightarrow> nat \<Rightarrow> 'e callback \<Rightarrow> 'e event \<Rightarrow> 'e client \<times> control" where
  "run_callback c i callback event =
     (let c1 = c\<lparr>called := called c @ [(i, event)]\<rparr> in
      case callback event of
        None \<Rightarrow> (c1, Continue)
      | Some e \<Rightarrow>
          if e = StopPropagation then (c1, Break)
          else
            (case errorHandler c1 of
               None \<Rightarrow> (log_msg Err ''Error in event handler'' (Some e) c1, Continue)
             | Some h \<Rightarrow>
                 (let c2 = c1\<lparr>handled := handled c1 @ [e]\<rparr> in
                  case h e of
                    Some e' \<Rightarrow> (c2, Throw e')
                  | None \<Rightarrow> (log_msg Err ''Error in event handler'' (Some e) c2, Continue))))"

text \<open>
  The statements between \<open>build\<close> and \<open>filter\<close>, which attach the client, the original
  update and its entities to the built event. They are in no \<open>try\<close> block: the first of
  them that throws leaves \<open>dispatchUpdate\<close>. The result is that exception, or \<open>None\<close>
  when all of them complete.
\<close>

definition attach :: "'e event \<Rightarrow> js_error option" where
  "attach event =
     (case assign_client event of
        Some e \<Rightarrow> Some e
      | None \<Rightarrow>
          (case has_eventName event of
             Inl e \<Rightarrow> Some e
           | Inr False \<Rightarrow> None
           | Inr True \<Rightarrow>
               (case call_setClient event of
                  Some e \<Rightarrow> Some e
                | None \<Rightarrow>
                    (case assign_originalUpdate event of
                       Some e \<Rightarrow> Some e
                     | None \<Rightarrow> assign_entities event))))"

text \<open>
  The loop body for the pair at position \<open>i\<close>. It returns the client, the pair, and how the
  turn ends. Modelled from the spec ("lazily resolve each builder exactly once"): after a
  \<open>resolve\<close> that returns, the builder's \<open>resolved\<close> flag is set. The update in
  \<open>args.update\<close> is an object, so the test \<open>if (event)\<close> on it succeeds.
\<close>

definition dispatch_pair ::
  "'e client \<Rightarrow> dispatch_args \<Rightarrow> nat \<Rightarrow> 'e builder option \<times> 'e callback option
     \<Rightarrow> 'e client \<times> ('e builder option \<times> 'e callback option) \<times> control" where
  "dispatch_pair c args i p =
     (case p of
        (None, cb) \<Rightarrow> (c, p, Continue)
      | (Some b, None) \<Rightarrow> (c, p, Continue)
      | (Some b, Some callback) \<Rightarrow>
          (case (if resolved b then None else resolve b) of
             Some e \<Rightarrow> (log_msg Err ''Error resolving event builder'' (Some e) c, p, Continue)
           | None \<Rightarrow>
               (let b' = b\<lparr>resolved := True\<rparr>;
                    p' = (Some b', Some callback);
                    c1 = resolve_self c
                in case build b' (update args) (selfInputPeer c1) of
                     Inl e \<Rightarrow> (log_msg Err ''Error building event'' (Some e) c1, p', Continue)
                   | Inr None \<Rightarrow> (c1, p', Continue)
                   | Inr (Some event) \<Rightarrow>
                       (case attach event of
                          Some e \<Rightarrow> (c1, p', Throw e)
                        | None \<Rightarrow>
                            (case filter' b' event of
                               Inl e \<Rightarrow> (log_msg Err ''Error in event filter'' (Some e) c1, p', Continue)
                             | Inr False \<Rightarrow> (c1, p', Continue)
                             | Inr True \<Rightarrow>
                                 (case run_callback c1 i callback event of
                                    (c2, ctl) \<Rightarrow> (c2, p', ctl)))))))"

text \<open>
  The \<open>for\<close> loop over the registry, from position \<open>i\<close> on. It returns the client, the
  pairs as the loop leaves them, and the exception that left the function, if any.
\<close>

fun dispatch_pairs ::
  "'e client \<Rightarrow> dispatch_args \<Rightarrow> nat \<Rightarrow> ('e builder option \<times> 'e callback option) list
     \<Rightarrow> 'e client \<times> ('e builder option \<times> 'e callback option) list \<times> js_error option" where
  "dispatch_pairs c args i [] = (c, [], None)"
| "dispatch_pairs c args i (p # ps) =
     (case dispatch_pair c args i p of
        (c1, p1, Continue) \<Rightarrow>
          (case dispatch_pairs c1 args (Suc i) ps of (c2, ps2, r) \<Rightarrow> (c2, p1 # ps2, r))
      | (c1, p1, Break) \<Rightarrow> (c1, p1 # ps, None)
      | (c1, p1, Throw e) \<Rightarrow> (c1, p1 # ps, Some e))"

text \<open>
  \<open>dispatchUpdate\<close>. It is an \<open>async\<close> function: the source starts it and goes on, and its
  body runs as an activity of its own. Here a call runs to its end where it is made. The
  calls are made in the same order either way, and \<open>dispatched\<close> records them; how the
  callbacks of different calls interleave is not modelled. The second component is the
  exception the returned promise is rejected with, if any.
\<close>

definition dispatchUpdate :: "'e client \<Rightarrow> dispatch_args \<Rightarrow> 'e client \<times> js_error option" where
  "dispatchUpdate c args =
     (case dispatch_pairs (c\<lparr>dispatched := dispatched c @ [args]\<rparr>) args 0 (eventBuilders c) of
        (c', ps', r) \<Rightarrow> (c'\<lparr>eventBuilders := ps'\<rparr>, r))"

subsection \<open>processUpdate and handleUpdate\<close>

text \<open>
  \<open>processUpdate\<close> first stores the entity map on the update: \<open>update._entities = entities
  || new Map()\<close>. The module is strict-mode code (it is an ES module), where creating a
  property on a primitive number throws a \<open>TypeError\<close>; on an object the assignment
  succeeds. A rejection of the dispatch is logged by the \<open>catch\<close> callback.
\<close>

definition processUpdate ::
  "'e client \<Rightarrow> js_value \<Rightarrow> update_object list option \<Rightarrow> (int \<rightharpoonup> entity) option
     \<Rightarrow> 'e client \<times> js_error option" where
  "processUpdate c u oth ents =
     (case u of
        Num n \<Rightarrow> (c, Some (TypeError ''Cannot create property _entities on number''))
      | Obj upd \<Rightarrow>
          (let args = \<lparr>update = upd, others = oth,
                       entities = Some (case ents of None \<Rightarrow> Map.empty | Some m \<Rightarrow> m)\<rparr>
           in case dispatchUpdate c args of
                (c', None) \<Rightarrow> (c', None)
              | (c', Some e) \<Rightarrow> (log_msg Err ''Error dispatching update'' (Some e) c', None)))"

text \<open>A loop of \<open>processUpdate\<close> calls over a list of update objects; an exception ends it.\<close>

fun processUpdates ::
  "'e client \<Rightarrow> update_object list \<Rightarrow> update_object list option \<Rightarrow> (int \<rightharpoonup> entity) option
     \<Rightarrow> 'e client \<times> js_error option" where
  "processUpdates c [] oth ents = (c, None)"
| "processUpdates c (u # us) oth ents =
     (case processUpdate c (Obj u) oth ents of
        (c', Some e) \<Rightarrow> (c', Some e)
      | (c', None) \<Rightarrow> processUpdates c' us oth ents)"

text \<open>
  The entity map: each entity is stored under its peer id, later ones over earlier ones; an
  entity on which \<open>getPeerId\<close> throws is skipped.
\<close>

fun set_entities :: "(int \<rightharpoonup> entity) \<Rightarrow> entity list \<Rightarrow> (int \<rightharpoonup> entity)" where
  "set_entities m [] = m"
| "set_entities m (x # xs) =
     (case getPeerId x of
        Inl e \<Rightarrow> set_entities m xs
      | Inr i \<Rightarrow> set_entities (m(i \<mapsto> x)) xs)"

text \<open>
  The body of the \<open>try\<close> block of \<open>handleUpdate\<close>. \<open>_entityCache.add\<close> and
  \<open>session.processEntities\<close> are outside the sources; their calls are recorded.
\<close>

definition handleUpdate_body :: "'e client \<Rightarrow> js_value \<Rightarrow> 'e client \<times> js_error option" where
  "handleUpdate_body c u =
     (case (case u of Num n \<Rightarrow> if n \<in> set [-1, 0, 1] then Some n else None | Obj upd \<Rightarrow> None) of
        Some n \<Rightarrow>
          (case dispatchUpdate c \<lparr>update = UpdateConnectionState n, others = None, entities = None\<rparr> of
             (c', None) \<Rightarrow> (c', None)
           | (c', Some e) \<Rightarrow> (log_msg Err ''Error dispatching connection state'' (Some e) c', None))
      | None \<Rightarrow>
          (let c1 = c\<lparr>entityCache := entityCache c @ [OfUpdate u]\<rparr>;
               c2 = c1\<lparr>sessionEntities := sessionEntities c1 @ [OfUpdate u]\<rparr>
           in case u of
                Obj (Updates us cs upds) \<Rightarrow>
                  processUpdates c2 upds (Some upds) (Some (set_entities Map.empty (us @ cs)))
              | Obj (UpdatesCombined us cs upds) \<Rightarrow>
                  processUpdates c2 upds (Some upds) (Some (set_entities Map.empty (us @ cs)))
              | Obj (UpdateShort upd) \<Rightarrow> processUpdate c2 (Obj upd) None None
              | _ \<Rightarrow> processUpdate c2 u None None))"

definition handleUpdate :: "'e client \<Rightarrow> js_value \<Rightarrow> 'e client" where
  "handleUpdate c u =
     (case handleUpdate_body c u of
        (c', None) \<Rightarrow> c'
      | (c', Some e) \<Rightarrow> log_msg Err ''Error handling update'' (Some e) c')"

subsection \<open>processDifference and catchUp\<close>

text \<open>
  The loop over \<open>diff.newMessages\<close>: a message that is an instance of \<open>Message\<close> or of
  \<open>MessageService\<close> (\<open>wrapped\<close>) is wrapped into an \<open>UpdateNewMessage\<close> with \<open>pts\<close> and
  \<open>ptsCount\<close> 0 and processed with \<open>others\<close> null; any other message is passed over.
\<close>

fun wrapped :: "message \<Rightarrow> bool" where
  "wrapped (Message n) = True"
| "wrapped (MessageService n) = True"
| "wrapped (MessageEmpty n) = False"

fun processNewMessages ::
  "'e client \<Rightarrow> message list \<Rightarrow> (int \<rightharpoonup> entity) \<Rightarrow> 'e client \<times> js_error option" where
  "processNewMessages c [] ents = (c, None)"
| "processNewMessages c (m # ms) ents =
     (if wrapped m then
        (case processUpdate c (Obj (UpdateNewMessage m 0 0)) None (Some ents) of
           (c', Some e) \<Rightarrow> (c', Some e)
         | (c', None) \<Rightarrow> processNewMessages c' ms ents)
      else processNewMessages c ms ents)"

definition processDifference ::
  "'e client \<Rightarrow> difference \<Rightarrow> difference_body \<Rightarrow> 'e client \<times> js_error option" where
  "processDifference c diff d =
     (let ents = set_entities (set_entities Map.empty (users d)) (chats d);
          c1 = c\<lparr>entityCache := entityCache c @ [OfDifference diff]\<rparr>;
          c2 = c1\<lparr>sessionEntities := sessionEntities c1 @ [OfDifference diff]\<rparr>
      in case processNewMessages c2 (newMessages d) ents of
           (c3, Some e) \<Rightarrow> (c3, Some e)
         | (c3, None) \<Rightarrow> processUpdates c3 (otherUpdates d) (Some (otherUpdates d)) (Some ents))"

text \<open>
  The server is given by the replies \<open>client.invoke\<close> will give to the next \<open>GetState\<close>
  requests and to the next \<open>GetDifference\<close> requests, in order, each a result or a
  rejection. A request made when its list is used up is rejected.
\<close>

record server =
  stateReplies :: "(js_error + UpdateState) list"
  differenceReplies :: "(js_error + difference) list"

definition sent :: "request \<Rightarrow> 'e client \<Rightarrow> 'e client" where
  "sent r c = c\<lparr>requests := requests c @ [r]\<rparr>"

definition new_state :: "UpdateState \<Rightarrow> UpdateState" where
  "new_state s = \<lparr>pts = pts s, qts = qts s, date = date s, seq = seq s\<rparr>"

text \<open>
  The \<open>while (fetching)\<close> loop of \<open>catchUp\<close>, on the replies to its \<open>GetDifference\<close>
  requests; it returns the client, the exception that left the loop (if any) and the replies
  not used. A turn reads \<open>client._updateState\<close> to build the request, which would throw a
  \<open>TypeError\<close> if there were no state object: \<open>catchUp\<close> enters the loop with one and
  every turn leaves one.
\<close>

fun catchUp_loop ::
  "'e client \<Rightarrow> (js_error + difference) list
     \<Rightarrow> 'e client \<times> js_error option \<times> (js_error + difference) list" where
  "catchUp_loop c [] =
     (case updateState c of
        None \<Rightarrow> (c, Some (TypeError ''Cannot read properties of undefined''), [])
      | Some st \<Rightarrow>
          (sent (GetDifference (pts st) (date st) (qts st)) c, Some (Error ''no reply''), []))"
| "catchUp_loop c (Inl e # rs) =
     (case updateState c of
        None \<Rightarrow> (c, Some (TypeError ''Cannot read properties of undefined''), Inl e # rs)
      | Some st \<Rightarrow> (sent (GetDifference (pts st) (date st) (qts st)) c, Some e, rs))"
| "catchUp_loop c (Inr (DifferenceEmpty d s) # rs) =
     (case updateState c of
        None \<Rightarrow> (c, Some (TypeError ''Cannot read properties of undefined''),
                 Inr (DifferenceEmpty d s) # rs)
      | Some st \<Rightarrow>
          (let c1 = sent (GetDifference (pts st) (date st) (qts st)) c
           in (c1\<lparr>updateState := Some (st\<lparr>date := d, seq := s\<rparr>)\<rparr>, None, rs)))"
| "catchUp_loop c (Inr (Difference body state) # rs) =
     (case updateState c of
        None \<Rightarrow> (c, Some (TypeError ''Cannot read properties of undefined''),
                 Inr (Difference body state) # rs)
      | Some st \<Rightarrow>
          (let c1 = sent (GetDifference (pts st) (date st) (qts st)) c
           in case processDifference c1 (Difference body state) body of
                (c2, Some e) \<Rightarrow> (c2, Some e, rs)
              | (c2, None) \<Rightarrow> (c2\<lparr>updateState := Some (new_state state)\<rparr>, None, rs)))"
| "catchUp_loop c (Inr (DifferenceSlice body intermediateState) # rs) =
     (case updateState c of
        None \<Rightarrow> (c, Some (TypeError ''Cannot read properties of undefined''),
                 Inr (DifferenceSlice body intermediateState) # rs)
      | Some st \<Rightarrow>
          (let c1 = sent (GetDifference (pts st) (date st) (qts st)) c
           in case processDifference c1 (DifferenceSlice body intermediateState) body of
                (c2, Some e) \<Rightarrow> (c2, Some e, rs)
              | (c2, None) \<Rightarrow>
                  catchUp_loop (c2\<lparr>updateState := Some (new_state intermediateState)\<rparr>) rs))"
| "catchUp_loop c (Inr (DifferenceTooLong p) # rs) =
     (case updateState c of
        None \<Rightarrow> (c, Some (TypeError ''Cannot read properties of undefined''),
                 Inr (DifferenceTooLong p) # rs)
      | Some st \<Rightarrow>
          (let c1 = sent (GetDifference (pts st) (date st) (qts st)) c
           in (log_msg Warn ''Too many updates missed, some may be lost'' None
                 (c1\<lparr>updateState := Some (st\<lparr>pts := p\<rparr>)\<rparr>), None, rs)))"

text \<open>
  The body of the \<open>try\<close> block of \<open>catchUp\<close>, and \<open>catchUp\<close>, which logs an exception
  of the body and returns.
\<close>

definition catchUp_body :: "'e client \<Rightarrow> server \<Rightarrow> 'e client \<times> js_error option \<times> server" where
  "catchUp_body c srv =
     (case updateState c of
        None \<Rightarrow>
          (let c1 = sent GetState c in
           case stateReplies srv of
             [] \<Rightarrow> (c1, Some (Error ''no reply''), srv)
           | Inl e # rs \<Rightarrow> (c1, Some e, srv\<lparr>stateReplies := rs\<rparr>)
           | Inr state # rs \<Rightarrow>
               (log_msg Debug ''Initialized update state'' None
                  (c1\<lparr>updateState := Some (new_state state)\<rparr>),
                None, srv\<lparr>stateReplies := rs\<rparr>))
      | Some st \<Rightarrow>
          (case catchUp_loop (log_msg Debug ''Catching up on missed updates...'' None c)
                  (differenceReplies srv) of
             (c1, Some e, rs) \<Rightarrow> (c1, Some e, srv\<lparr>differenceReplies := rs\<rparr>)
           | (c1, None, rs) \<Rightarrow>
               (log_msg Debug ''Catch up complete'' None c1, None, srv\<lparr>differenceReplies := rs\<rparr>)))"

definition catchUp :: "'e client \<Rightarrow> server \<Rightarrow> 'e client \<times> server" where
  "catchUp c srv =
     (case catchUp_body c srv of
        (c', None, srv') \<Rightarrow> (c', srv')
      | (c', Some e, srv') \<Rightarrow> (log_msg Err ''Error during catch up'' (Some e) c', srv'))"

section \<open>teleproto_generator/crc32.ts\<close>

text \<open>
  The bitwise operators of JavaScript work on 32-bit integers, so the table entries and the
  running checksum are 32-bit words: \<open>>>>\<close> is \<open>drop_bit\<close>, the initial \<open>-1\<close> is the word
  of all ones, and the final \<open>>>> 0\<close> reads the word as an unsigned number.

  \<open>crc_step\<close> is the body of the inner loop of \<open>makeCrcTable\<close>, and \<open>crc_bits k c\<close>
  that loop run \<open>k\<close> times on \<open>c\<close>.
\<close>

definition crc_step :: "32 word \<Rightarrow> 32 word" where
  "crc_step c = (if c AND 1 \<noteq> 0 then 0xedb88320 XOR drop_bit 1 c else drop_bit 1 c)"

fun crc_bits :: "nat \<Rightarrow> 32 word \<Rightarrow> 32 word" where
  "crc_bits 0 c = c"
| "crc_bits (Suc k) c = crc_bits k (crc_step c)"

definition makeCrcTable :: "32 word list" where
  "makeCrcTable = map (\<lambda>n. crc_bits 8 (of_nat n)) [0 ..< 256]"

fun crc_loop :: "32 word list \<Rightarrow> buffer \<Rightarrow> 32 word \<Rightarrow> 32 word" where
  "crc_loop crcTable [] crc = crc"
| "crc_loop crcTable (byte # rest) crc =
     crc_loop crcTable rest
       (crcTable ! unat ((crc XOR ucast byte) AND 0xff) XOR drop_bit 8 crc)"

definition crc32 :: "buffer \<Rightarrow> nat" where
  "crc32 buf = unat (crc_loop makeCrcTable buf (- 1) XOR (- 1))"

text \<open>
  \<open>Buffer.from(string)\<close> encodes the string in UTF-8. A character of a \<open>string\<close> here is a
  code point below 256: below 128 it is one byte, from 128 on two.
\<close>

definition utf8 :: "string \<Rightarrow> buffer" where
  "utf8 s = concat (map (\<lambda>c. let n = (of_char c :: nat) in
                 if n < 128 then [of_nat n]
                 else [of_nat (192 + n div 64), of_nat (128 + n mod 64)]) s)"

section \<open>Regular expressions and string methods of the runtime\<close>

text \<open>
  The parser is written with regular expressions. They are data here, and \<open>ms\<close> is the
  backtracking matcher of the language: \<open>ms s r (i, g)\<close> lists, in the order in which the
  matcher tries them, the ways in which \<open>r\<close> matches in \<open>s\<close> from position \<open>i\<close> on, each
  as the position after the match and the captures, \<open>g\<close> being the captures so far. A
  quantifier is greedy: one more turn is tried before stopping, and a turn that consumes
  nothing is not taken. \<open>Bol\<close> and \<open>Eol\<close> are \<open>^\<close> and \<open>$\<close> without the multiline flag.
  None of the expressions of the parser has a capture inside a repetition, so the
  resetting of captures at each turn is not modelled.
\<close>

datatype regex =
    Chr char
  | Class "char \<Rightarrow> bool"
  | Seq regex regex
  | Alt regex regex
  | Star regex
  | Group nat regex
  | Bol
  | Eol
  | Empty

definition Plus :: "regex \<Rightarrow> regex" where
  "Plus r = Seq r (Star r)"

definition Opt :: "regex \<Rightarrow> regex" where
  "Opt r = Alt r Empty"

fun Seqs :: "regex list \<Rightarrow> regex" where
  "Seqs [] = Empty"
| "Seqs [r] = r"
| "Seqs (r # rs) = Seq r (Seqs rs)"

type_synonym captures = "nat \<rightharpoonup> string"

function ms :: "string \<Rightarrow> regex \<Rightarrow> nat \<times> captures \<Rightarrow> (nat \<times> captures) list" where
  "ms s (Chr c) (i, g) = (if i < length s \<and> s ! i = c then [(i + 1, g)] else [])"
| "ms s (Class P) (i, g) = (if i < length s \<and> P (s ! i) then [(i + 1, g)] else [])"
| "ms s (Seq a b) (i, g) = concat (map (ms s b) (ms s a (i, g)))"
| "ms s (Alt a b) (i, g) = ms s a (i, g) @ ms s b (i, g)"
| "ms s (Star a) (i, g) =
     concat (map (\<lambda>st. if i < fst st \<and> fst st \<le> length s then ms s (Star a) st else [])
                 (ms s a (i, g)))
     @ [(i, g)]"
| "ms s (Group n a) (i, g) =
     map (\<lambda>st. (fst st, (snd st)(n \<mapsto> take (fst st - i) (drop i s)))) (ms s a (i, g))"
| "ms s Bol (i, g) = (if i = 0 then [(i, g)] else [])"
| "ms s Eol (i, g) = (if i = length s then [(i, g)] else [])"
| "ms s Empty (i, g) = [(i, g)]"
  by pat_completeness auto
termination
  by (relation "measures [\<lambda>(s, r, st). size r, \<lambda>(s, r, st). length s - fst st]") auto

text \<open>
  One run of the matcher over the string, as in \<open>RegExp.prototype.exec\<close>: the start
  positions are tried from \<open>i\<close> on, and the first way of matching at the first position
  that has one is taken. The result is the start, the end and the captures.
\<close>

function search :: "string \<Rightarrow> regex \<Rightarrow> nat \<Rightarrow> (nat \<times> nat \<times> captures) option" where
  "search s r i =
     (if length s < i then None
      else (case ms s r (i, Map.empty) of
              (j, g) # rest \<Rightarrow> Some (i, j, g)
            | [] \<Rightarrow> search s r (i + 1)))"
  by pat_completeness auto
termination
  by (relation "measure (\<lambda>(s, r, i). length s + 1 - i)") auto

declare search.simps [simp del]

text \<open>The number of capture groups, and \<open>String.prototype.substring\<close>.\<close>

fun ngroups :: "regex \<Rightarrow> nat" where
  "ngroups (Seq a b) = ngroups a + ngroups b"
| "ngroups (Alt a b) = ngroups a + ngroups b"
| "ngroups (Star a) = ngroups a"
| "ngroups (Group n a) = Suc (ngroups a)"
| "ngroups r = 0"

definition substring :: "string \<Rightarrow> nat \<Rightarrow> nat \<Rightarrow> string" where
  "substring s b e = take (e - b) (drop b s)"

text \<open>
  \<open>string.match(regex)\<close> for a regex without the global flag: \<open>null\<close>, or the array of
  the match and the captures, \<open>None\<close> standing for \<open>undefined\<close>.
\<close>

definition js_match :: "string \<Rightarrow> regex \<Rightarrow> (string option list) option" where
  "js_match s r =
     (case search s r 0 of
        None \<Rightarrow> None
      | Some (b, e, g) \<Rightarrow> Some (Some (substring s b e) # map g [1 ..< Suc (ngroups r)]))"

text \<open>
  \<open>findAll\<close> of the parser: the regex gets the global flag and \<open>exec\<close> is called until it
  returns \<open>null\<close>, each call starting at \<open>lastIndex\<close>, the end of the match before; the
  captures of each match are collected (\<open>match.slice(1)\<close>). A match that ended where it
  started would be found again and again: the loop would not end, and the result is
  \<open>None\<close>.
\<close>

function findAll_from :: "regex \<Rightarrow> string \<Rightarrow> nat \<Rightarrow> (string option list) list option" where
  "findAll_from r s lastIndex =
     (case search s r lastIndex of
        None \<Rightarrow> Some []
      | Some (b, e, g) \<Rightarrow>
          if lastIndex < e \<and> lastIndex \<le> length s
          then map_option ((#) (map g [1 ..< Suc (ngroups r)])) (findAll_from r s e)
          else None)"
  by pat_completeness auto
termination
  by (relation "measure (\<lambda>(r, s, lastIndex). length s + 1 - lastIndex)") auto

declare findAll_from.simps [simp del]

definition findAll :: "regex \<Rightarrow> string \<Rightarrow> (string option list) list option" where
  "findAll r s = findAll_from r s 0"

text \<open>
  \<open>string.replace(regex, replacement)\<close> with the global flag: every match, from left to
  right and without overlap, is replaced by what the replacement makes of the captures and
  the matched text; after an empty match the next character is copied. \<open>replace_first\<close> is
  \<open>replace\<close> without the global flag, and with a string in place of the regex.
\<close>

function replace_from :: "string \<Rightarrow> regex \<Rightarrow> (captures \<Rightarrow> string \<Rightarrow> string) \<Rightarrow> nat \<Rightarrow> string" where
  "replace_from s r f i =
     (if length s < i then []
      else (case ms s r (i, Map.empty) of
              (j, g) # rest \<Rightarrow>
                if i < j then f g (substring s i j) @ replace_from s r f j
                else f g [] @ (if i < length s then s ! i # replace_from s r f (i + 1) else [])
            | [] \<Rightarrow> if i < length s then s ! i # replace_from s r f (i + 1) else []))"
  by pat_completeness auto
termination
  by (relation "measure (\<lambda>(s, r, f, i). length s + 1 - i)") auto

declare replace_from.simps [simp del]

definition replace_all :: "string \<Rightarrow> regex \<Rightarrow> (captures \<Rightarrow> string \<Rightarrow> string) \<Rightarrow> string" where
  "replace_all s r f = replace_from s r f 0"

definition replace_first :: "string \<Rightarrow> regex \<Rightarrow> (captures \<Rightarrow> string \<Rightarrow> string) \<Rightarrow> string" where
  "replace_first s r f =
     (case search s r 0 of
        None \<Rightarrow> s
      | Some (b, e, g) \<Rightarrow> take b s @ f g (substring s b e) @ drop e s)"

text \<open>
  The character classes \<open>\w\<close>, \<open>\d\<close>, \<open>\s\<close> (on code points below 256), the hexadecimal
  digits, \<open>[a-z]\<close>, and the dot, which matches everything but a line terminator.
\<close>

definition is_word :: "char \<Rightarrow> bool" where
  "is_word c = (let n = (of_char c :: nat) in
     (97 \<le> n \<and> n \<le> 122) \<or> (65 \<le> n \<and> n \<le> 90) \<or> (48 \<le> n \<and> n \<le> 57) \<or> n = 95)"

definition is_digit :: "char \<Rightarrow> bool" where
  "is_digit c = (let n = (of_char c :: nat) in 48 \<le> n \<and> n \<le> 57)"

definition is_space :: "char \<Rightarrow> bool" where
  "is_space c = (of_char c \<in> set [9, 10, 11, 12, 13, 32, 160 :: nat])"

definition is_hex :: "char \<Rightarrow> bool" where
  "is_hex c = (let n = (of_char c :: nat) in
     (48 \<le> n \<and> n \<le> 57) \<or> (97 \<le> n \<and> n \<le> 102) \<or> (65 \<le> n \<and> n \<le> 70))"

definition is_lower :: "char \<Rightarrow> bool" where
  "is_lower c = (97 \<le> (of_char c :: nat) \<and> (of_char c :: nat) \<le> 122)"

definition not_newline :: "char \<Rightarrow> bool" where
  "not_newline c = (c \<noteq> CHR 0x0A \<and> c \<noteq> CHR 0x0D)"

text \<open>
  Conversions: a capture or an array element put where a string is expected (\<open>undefined\<close>
  becomes the text "undefined"; the parser does this only with captures that every match
  sets); \<open>toUpperCase\<close>, which the parser applies to matches of \<open>[a-z]\<close>, \<open>-\<close> and \<open>_\<close>
  only; \<open>join\<close>; \<open>split\<close> at a character; \<open>indexOf\<close>; \<open>trim\<close>; \<open>String(error)\<close>.
\<close>

definition str :: "string option \<Rightarrow> string" where
  "str x = (case x of None \<Rightarrow> ''undefined'' | Some s \<Rightarrow> s)"

definition toUpperCase :: "string \<Rightarrow> string" where
  "toUpperCase s =
     map (\<lambda>c. case map_of (zip ''abcdefghijklmnopqrstuvwxyz'' ''ABCDEFGHIJKLMNOPQRSTUVWXYZ'') c of
                 Some u \<Rightarrow> u | None \<Rightarrow> c) s"

fun join :: "string \<Rightarrow> string list \<Rightarrow> string" where
  "join sep [] = []"
| "join sep [x] = x"
| "join sep (x # xs) = x @ sep @ join sep xs"

fun split_on :: "char \<Rightarrow> string \<Rightarrow> string \<Rightarrow> string list" where
  "split_on sep cur [] = [cur]"
| "split_on sep cur (c # cs) =
     (if c = sep then cur # split_on sep [] cs else split_on sep (cur @ [c]) cs)"

fun indexOf_from :: "string \<Rightarrow> string \<Rightarrow> nat \<Rightarrow> nat option" where
  "indexOf_from [] t i = (if t = [] then Some i else None)"
| "indexOf_from (c # s) t i =
     (if take (length t) (c # s) = t then Some i else indexOf_from s t (Suc i))"

definition trim :: "string \<Rightarrow> string" where
  "trim s = rev (dropWhile is_space (rev (dropWhile is_space s)))"

fun String :: "js_error \<Rightarrow> string" where
  "String (Error m) = ''Error: '' @ m"
| "String (TypeError m) = ''TypeError: '' @ m"
| "String StopPropagation = ''Error''"

text \<open>
  \<open>Number.parseInt(text, 16)\<close> on \<open>undefined\<close> (the result is \<open>NaN\<close>, here \<open>None\<close>) or on
  a text of hexadecimal digits, and \<open>Number(text)\<close> on a text of decimal digits. The numbers
  of JavaScript are doubles: the values here are theirs as long as they are below \<open>2^53\<close>.
\<close>

fun parse_digits :: "nat \<Rightarrow> (char \<Rightarrow> nat) \<Rightarrow> nat \<Rightarrow> string \<Rightarrow> nat" where
  "parse_digits base val acc [] = acc"
| "parse_digits base val acc (c # cs) = parse_digits base val (acc * base + val c) cs"

definition hex_value :: "char \<Rightarrow> nat" where
  "hex_value c = (let n = (of_char c :: nat) in
     if 48 \<le> n \<and> n \<le> 57 then n - 48
     else if 97 \<le> n \<and> n \<le> 102 then n - 87
     else n - 55)"

definition parseInt16 :: "string option \<Rightarrow> nat option" where
  "parseInt16 x = (case x of None \<Rightarrow> None | Some digits \<Rightarrow> Some (parse_digits 16 hex_value 0 digits))"

definition Number :: "string \<Rightarrow> int" where
  "Number digits = int (parse_digits 10 (\<lambda>c. of_char c - 48) 0 digits)"

section \<open>teleproto_generator/parser.ts\<close>

definition CORE_TYPES :: "nat list" where
  "CORE_TYPES = [0xbc799737, 0x997275b5, 0x3fedd339, 0xc4b9f9bb, 0x56730bcc]"

definition AUTH_KEY_TYPES :: "nat list" where
  "AUTH_KEY_TYPES = [0x05162463, 0x83c95aec, 0xa9f55f95, 0x3c6a84d4, 0x56fddf88, 0xd0e8075c,
                     0xb5890dba, 0x6643b654, 0xd712e4be, 0xf5045f1f, 0x3072cfa1]"

record ArgConfig =
  isVector :: bool
  isFlag :: bool
  skipConstructorId :: bool
  flagName :: "string option"
  flagIndex :: int
  flagIndicator :: bool
  type :: "string option"
  useVectorId :: "bool option"

text \<open>
  \<open>argsConfig\<close> is an object used as a dictionary: a list of keys with their values in
  the order in which the keys were first assigned (\<open>upsert\<close>).
\<close>

record TlDefinition =
  name :: string
  constructorId :: nat
  argsConfig :: "(string \<times> ArgConfig) list"
  subclassOfId :: nat
  result :: string
  isFunction :: bool
  namespace :: "string option"

fun upsert :: "string \<Rightarrow> 'a \<Rightarrow> (string \<times> 'a) list \<Rightarrow> (string \<times> 'a) list" where
  "upsert k v [] = [(k, v)]"
| "upsert k v ((k', v') # xs) = (if k' = k then (k, v) # xs else (k', v') # upsert k v xs)"

text \<open>
  \<open>snakeToCamelCase\<close>: \<open>/(?:^|_)([a-z])/g\<close> replaced by the capture in upper case, then
  \<open>/_/g\<close> by nothing. \<open>variableSnakeToCamelCase\<close>: \<open>/([-_][a-z])/g\<close> replaced by the match in
  upper case without its first \<open>-\<close> and its first \<open>_\<close>.
\<close>

definition snakeToCamelCase :: "string \<Rightarrow> string" where
  "snakeToCamelCase n =
     (let result = replace_all n (Seq (Alt Bol (Chr CHR ''_'')) (Group 1 (Class is_lower)))
                     (\<lambda>g whole. toUpperCase (str (g 1)))
      in replace_all result (Chr CHR ''_'') (\<lambda>g whole. []))"

definition variableSnakeToCamelCase :: "string \<Rightarrow> string" where
  "variableSnakeToCamelCase v =
     replace_all v
       (Group 1 (Seq (Class (\<lambda>c. c = CHR ''-'' \<or> c = CHR ''_'')) (Class is_lower)))
       (\<lambda>g whole. replace_first (replace_first (toUpperCase whole) (Chr CHR ''-'') (\<lambda>g w. []))
                      (Chr CHR ''_'') (\<lambda>g w. []))"

text \<open>
  The two expressions of \<open>buildArgConfig\<close>, \<open>/(flags(?:\d+)?).(\d+)\?([\w<>.]+)/\<close> and
  \<open>/[Vv]ector<([\w\d.]+)>/\<close>.
\<close>

definition flag_re :: regex where
  "flag_re =
     Seqs [Group 1 (Seqs [Chr CHR ''f'', Chr CHR ''l'', Chr CHR ''a'', Chr CHR ''g'', Chr CHR ''s'',
                          Opt (Plus (Class is_digit))]),
           Class not_newline,
           Group 2 (Plus (Class is_digit)),
           Chr CHR ''?'',
           Group 3 (Plus (Class (\<lambda>c. is_word c \<or> c \<in> set ''<>.'')))]"

definition vector_re :: regex where
  "vector_re =
     Seqs [Class (\<lambda>c. c = CHR ''V'' \<or> c = CHR ''v''),
           Chr CHR ''e'', Chr CHR ''c'', Chr CHR ''t'', Chr CHR ''o'', Chr CHR ''r'', Chr CHR ''<'',
           Group 1 (Plus (Class (\<lambda>c. is_word c \<or> is_digit c \<or> c = CHR ''.''))),
           Chr CHR ''>'']"

text \<open>
  \<open>buildArgConfig\<close>. Its first statement renames the parameter \<open>name\<close> (\<open>name1\<close> here);
  nothing reads the parameter afterwards. \<open>plain\<close> is the part of the type after its last
  dot, and the test on it is \<open>/^[a-z]$/\<close> on its first character.
\<close>

definition buildArgConfig :: "string \<Rightarrow> string \<Rightarrow> ArgConfig" where
  "buildArgConfig name0 argType =
     (let name1 = (if name0 = ''self'' then ''is_self'' else name0);
          config = \<lparr>isVector = False, isFlag = False, skipConstructorId = False,
                    flagName = None, flagIndex = - 1, flagIndicator = True, type = None,
                    useVectorId = None\<rparr>;
          config =
            (if argType \<noteq> ''#'' then
               (let config = config\<lparr>flagIndicator := False\<rparr>;
                    config = config\<lparr>type := Some (replace_first argType
                                 (Seq Bol (Plus (Chr CHR ''!''))) (\<lambda>g w. []))\<rparr>;
                    config =
                      (case js_match (str (type config)) flag_re of
                         None \<Rightarrow> config
                       | Some flagMatch \<Rightarrow>
                           config\<lparr>isFlag := True, flagName := Some (str (flagMatch ! 1)),
                                  flagIndex := Number (str (flagMatch ! 2)),
                                  type := Some (str (flagMatch ! 3))\<rparr>);
                    config =
                      (case js_match (str (type config)) vector_re of
                         None \<Rightarrow> config
                       | Some vectorMatch \<Rightarrow>
                           config\<lparr>isVector := True,
                                  useVectorId := Some (take 1 (str (type config)) = ''V''),
                                  type := Some (str (vectorMatch ! 1))\<rparr>);
                    plain = last (split_on CHR ''.'' [] (str (type config)))
                in if take 1 plain \<noteq> [] \<and> is_lower (hd plain)
                   then config\<lparr>skipConstructorId := True\<rparr> else config)
             else config)
      in if type config = Some ''future_salt'' then config\<lparr>type := Some ''FutureSalt''\<rparr>
         else config)"

text \<open>
  The two expressions of \<open>fromLine\<close>:
  \<open>/([\w.]+)(?:#([0-9a-fA-F]+))?(?:\s{?\w+:[\w\d<>#.?!]+}?)*\s=\s([\w\d<>#.?]+);$/\<close> for
  the definition and \<open>/({)?(\w+):([\w\d<>#.?!]+)}?/\<close> for a field.
\<close>

definition definition_re :: regex where
  "definition_re =
     Seqs [Group 1 (Plus (Class (\<lambda>c. is_word c \<or> c = CHR ''.''))),
           Opt (Seq (Chr CHR ''#'') (Group 2 (Plus (Class is_hex)))),
           Star (Seqs [Class is_space, Opt (Chr CHR ''{''), Plus (Class is_word), Chr CHR '':'',
                       Plus (Class (\<lambda>c. is_word c \<or> is_digit c \<or> c \<in> set ''<>#.?!'')),
                       Opt (Chr CHR ''}'')]),
           Class is_space, Chr CHR ''='', Class is_space,
           Group 3 (Plus (Class (\<lambda>c. is_word c \<or> is_digit c \<or> c \<in> set ''<>#.?''))),
           Chr CHR '';'', Eol]"

definition field_re :: regex where
  "field_re =
     Seqs [Opt (Group 1 (Chr CHR ''{'')), Group 2 (Plus (Class is_word)), Chr CHR '':'',
           Group 3 (Plus (Class (\<lambda>c. is_word c \<or> is_digit c \<or> c \<in> set ''<>#.?!''))),
           Opt (Chr CHR ''}'')]"

text \<open>
  The loop of \<open>fromLine\<close> over the fields found: a field without the opening brace is
  stored in \<open>argsConfig\<close> under \<open>variableSnakeToCamelCase(name)\<close>.
\<close>

fun set_args :: "(string \<times> ArgConfig) list \<Rightarrow> (string option list) list \<Rightarrow> (string \<times> ArgConfig) list" where
  "set_args cfg [] = cfg"
| "set_args cfg (m # rest) =
     (if m ! 0 = None
      then set_args (upsert (variableSnakeToCamelCase (str (m ! 1)))
                            (buildArgConfig (str (m ! 1)) (str (m ! 2))) cfg) rest
      else set_args cfg rest)"

text \<open>
  The representation that \<open>fromLine\<close> hashes when the line gives no id: from the name, the
  keys of \<open>argsConfig\<close> and the result, by the four replacements of the source.
\<close>

definition representation_of :: "string \<Rightarrow> string list \<Rightarrow> string \<Rightarrow> string" where
  "representation_of n keys res =
     (let args = (if length keys \<noteq> 0 then '' '' @ join '' '' keys else []);
          r0 = n @ args @ '' = '' @ res;
          r1 = replace_all r0
                 (Seqs [Group 1 (Alt (Chr CHR '':'') (Chr CHR ''?'')),
                        Chr CHR ''b'', Chr CHR ''y'', Chr CHR ''t'', Chr CHR ''e'', Chr CHR ''s'',
                        Chr CHR '' ''])
                 (\<lambda>g w. str (g 1) @ ''string '');
          r2 = replace_all r1 (Chr CHR ''<'') (\<lambda>g w. '' '');
          r3 = replace_all r2 (Alt (Chr CHR ''>'') (Alt (Chr CHR ''{'') (Chr CHR ''}''))) (\<lambda>g w. []);
          r4 = replace_all r3
                 (Seqs [Chr CHR '' '', Plus (Class is_word), Chr CHR '':'',
                        Chr CHR ''f'', Chr CHR ''l'', Chr CHR ''a'', Chr CHR ''g'', Chr CHR ''s'',
                        Opt (Group 1 (Plus (Class is_digit))), Chr CHR ''.'',
                        Plus (Class is_digit), Chr CHR ''?'',
                        Chr CHR ''t'', Chr CHR ''r'', Chr CHR ''u'', Chr CHR ''e''])
                 (\<lambda>g w. [])
      in r4)"

text \<open>
  \<open>fromLine\<close>. The statements are in the order of the source: the object \<open>config\<close> is made
  with an empty \<open>argsConfig\<close> and the id parsed from the line (\<open>NaN\<close> when the line has
  none); when the id is \<open>NaN\<close> or 0 (\<open>!config.constructorId\<close>) it is replaced by the
  checksum of the representation, made from \<open>config\<close> as it is at that point; then the
  fields are stored; then a name with a dot is split at \<open>/\.(.+)/\<close> into namespace and
  name, where a name that the expression does not match leaves the name \<open>undefined\<close> and
  \<open>snakeToCamelCase\<close> throws. The outer \<open>option\<close> is \<open>None\<close> when \<open>findAll\<close> does not
  return.
\<close>

definition fromLine :: "string \<Rightarrow> bool \<Rightarrow> (js_error + TlDefinition) option" where
  "fromLine line isFn =
     (case js_match line definition_re of
        None \<Rightarrow> Some (Inl (Error (''Cannot parse TLObject '' @ line)))
      | Some m \<Rightarrow>
          (case findAll field_re line of
             None \<Rightarrow> None
           | Some argsMatch \<Rightarrow>
               (let config = \<lparr>name = str (m ! 1),
                               constructorId = (case parseInt16 (m ! 2) of None \<Rightarrow> 0 | Some n \<Rightarrow> n),
                               argsConfig = [],
                               subclassOfId = crc32 (utf8 (str (m ! 3))),
                               result = str (m ! 3),
                               isFunction = isFn,
                               namespace = None\<rparr>;
                    config =
                      (if parseInt16 (m ! 2) = None \<or> parseInt16 (m ! 2) = Some 0
                       then config\<lparr>constructorId :=
                              crc32 (utf8 (representation_of (name config)
                                             (map fst (argsConfig config)) (result config)))\<rparr>
                       else config);
                    config = config\<lparr>argsConfig := set_args (argsConfig config) argsMatch\<rparr>
                in if CHR ''.'' \<in> set (name config)
                   then (case search (name config)
                                (Seq (Chr CHR ''.'') (Group 1 (Plus (Class not_newline)))) 0 of
                           None \<Rightarrow> Some (Inl (TypeError
                                      ''Cannot read properties of undefined (reading replace)''))
                         | Some (b, e, g) \<Rightarrow>
                             Some (Inr (config\<lparr>namespace := Some (take b (name config)),
                                                name := snakeToCamelCase (str (g 1))\<rparr>)))
                   else Some (Inr (config\<lparr>name := snakeToCamelCase (name config)\<rparr>)))))"

text \<open>
  \<open>parseTl\<close>: the loop over the lines (\<open>/---(\w+)---/\<close> for a section marker), then the
  loop that retypes the \<open>string\<close> fields of the auth-key types.
\<close>

definition section_re :: regex where
  "section_re =
     Seqs [Chr CHR ''-'', Chr CHR ''-'', Chr CHR ''-'', Group 1 (Plus (Class is_word)),
           Chr CHR ''-'', Chr CHR ''-'', Chr CHR ''-'']"

fun parse_lines ::
  "string list \<Rightarrow> bool \<Rightarrow> TlDefinition list \<Rightarrow> (js_error + TlDefinition list) option" where
  "parse_lines [] isFn parsed = Some (Inr parsed)"
| "parse_lines (l # ls) isFn parsed =
     (let line = (case indexOf_from l ''//'' 0 of None \<Rightarrow> l | Some commentIndex \<Rightarrow> take commentIndex l);
          line = trim line
      in if line = [] then parse_lines ls isFn parsed
         else
           (case js_match line section_re of
              Some sec \<Rightarrow> parse_lines ls (str (sec ! 1) = ''functions'') parsed
            | None \<Rightarrow>
                (case fromLine line isFn of
                   None \<Rightarrow> None
                 | Some (Inr parsedLine) \<Rightarrow>
                     if constructorId parsedLine \<in> set CORE_TYPES then parse_lines ls isFn parsed
                     else parse_lines ls isFn (parsed @ [parsedLine])
                 | Some (Inl error) \<Rightarrow>
                     if \<not> includes' (String error) ''vector#1cb5c415'' then Some (Inl error)
                     else parse_lines ls isFn parsed)))"

definition patch_auth_key :: "TlDefinition \<Rightarrow> TlDefinition" where
  "patch_auth_key d =
     (if constructorId d \<in> set AUTH_KEY_TYPES
      then d\<lparr>argsConfig :=
               map (\<lambda>(argName, cfg). (argName, if type cfg = Some ''string''
                                                  then cfg\<lparr>type := Some ''bytes''\<rparr> else cfg))
                   (argsConfig d)\<rparr>
      else d)"

definition parseTl :: "string \<Rightarrow> (js_error + TlDefinition list) option" where
  "parseTl content =
     (case parse_lines (split_on CHR 0x0A [] content) False [] of
        None \<Rightarrow> None
      | Some (Inl e) \<Rightarrow> Some (Inl e)
      | Some (Inr parsed) \<Rightarrow> Some (Inr (map patch_auth_key parsed)))"

section \<open>Notions used to state the properties\<close>

text \<open>
  \<open>frame c c'\<close>: the parts of the client that no dispatch touches are the same in \<open>c\<close>
  and \<open>c'\<close>.
\<close>

definition frame :: "'e client \<Rightarrow> 'e client \<Rightarrow> bool" where
  "frame c c' \<longleftrightarrow>
     updateState c' = updateState c \<and> requests c' = requests c
     \<and> entityCache c' = entityCache c \<and> sessionEntities c' = sessionEntities c
     \<and> errorHandler c' = errorHandler c \<and> getMe c' = getMe c"

text \<open>
  The argument of the \<open>dispatchUpdate\<close> call that \<open>processUpdate\<close> makes for an update
  object, and the calls \<open>processDifference\<close> makes for a difference, in order: one for each
  new message that is a \<open>Message\<close> or a \<open>MessageService\<close>, wrapped, then one for each
  of the other updates.
\<close>

definition tagged :: "update_object list option \<Rightarrow> (int \<rightharpoonup> entity) option \<Rightarrow> update_object \<Rightarrow> dispatch_args" where
  "tagged oth ents u =
     \<lparr>update = u, others = oth, entities = Some (case ents of None \<Rightarrow> Map.empty | Some m \<Rightarrow> m)\<rparr>"

definition diff_entities :: "difference_body \<Rightarrow> (int \<rightharpoonup> entity)" where
  "diff_entities d = set_entities (set_entities Map.empty (users d)) (chats d)"

definition fanned_out :: "difference_body \<Rightarrow> dispatch_args list" where
  "fanned_out d =
     map (\<lambda>m. tagged None (Some (diff_entities d)) (UpdateNewMessage m 0 0))
         (filter wrapped (newMessages d))
     @ map (tagged (Some (otherUpdates d)) (Some (diff_entities d))) (otherUpdates d)"

text \<open>
  A run of \<open>DifferenceSlice\<close> replies, and the state the loop holds after it.
\<close>

definition slices :: "(difference_body \<times> UpdateState) list \<Rightarrow> (js_error + difference) list" where
  "slices sl = map (\<lambda>(b, s). Inr (DifferenceSlice b s)) sl"

definition state_after :: "UpdateState \<Rightarrow> (difference_body \<times> UpdateState) list \<Rightarrow> UpdateState" where
  "state_after st sl = (if sl = [] then st else new_state (snd (last sl)))"

text \<open>
  A client and a server for closed instances: the client has a state and no handlers, the
  server answers with an empty difference, two slices and a full difference.
\<close>

definition client0 :: "nat client" where
  "client0 =
     \<lparr>updateState = Some \<lparr>pts = 10, qts = 20, date = 30, seq = 40\<rparr>,
      eventBuilders = [], selfInputPeer = None, errorHandler = None,
      getMe = Inl (Error ''not connected''), requests = [], logged = [], entityCache = [],
      sessionEntities = [], dispatched = [], called = [], handled = []\<rparr>"

definition body1 :: difference_body where
  "body1 = \<lparr>newMessages = [Message 1, MessageEmpty 2], otherUpdates = [OtherUpdate 3],
            chats = [], users = [Entity (Some 7) 0]\<rparr>"

definition server0 :: server where
  "server0 =
     \<lparr>stateReplies = [],
      differenceReplies =
        [Inr (DifferenceEmpty 31 41),
         Inr (DifferenceSlice body1 \<lparr>pts = 11, qts = 21, date = 31, seq = 41\<rparr>),
         Inr (DifferenceSlice body1 \<lparr>pts = 12, qts = 22, date = 32, seq = 42\<rparr>),
         Inr (Difference body1 \<lparr>pts = 13, qts = 23, date = 33, seq = 43\<rparr>)]\<rparr>"

text \<open>
  The callback \<open>dispatchUpdate\<close> is to invoke for a pair, and the event it is to pass: the
  pair has a builder and a callback, the builder is resolved or its \<open>resolve\<close> returns, it
  builds an event from the update, the statements that attach the client to the event
  complete, and its filter accepts the event. \<open>self\<close> is the own user id given to
  \<open>build\<close>. \<open>attach_error\<close> is the exception of the attaching statements, when the pair
  gets as far as these and one of them throws.
\<close>

fun candidate ::
  "int option \<Rightarrow> update_object \<Rightarrow> 'e builder option \<times> 'e callback option
     \<Rightarrow> ('e callback \<times> 'e event) option" where
  "candidate self upd (Some b, Some callback) =
     (if resolved b \<or> resolve b = None then
        (case build b upd self of
           Inr (Some event) \<Rightarrow>
             (case attach event of
                Some e \<Rightarrow> None
              | None \<Rightarrow>
                  (case filter' b event of Inr True \<Rightarrow> Some (callback, event) | _ \<Rightarrow> None))
         | _ \<Rightarrow> None)
      else None)"
| "candidate self upd (Some b, None) = None"
| "candidate self upd (None, cb) = None"

fun attach_error ::
  "int option \<Rightarrow> update_object \<Rightarrow> 'e builder option \<times> 'e callback option \<Rightarrow> js_error option" where
  "attach_error self upd (Some b, Some callback) =
     (if resolved b \<or> resolve b = None then
        (case build b upd self of
           Inr (Some event) \<Rightarrow> attach event
         | _ \<Rightarrow> None)
      else None)"
| "attach_error self upd (Some b, None) = None"
| "attach_error self upd (None, cb) = None"






text \<open>
  \<open>own_id\<close> is the own user id that \<open>build\<close> is given in a round: the cached one, or else
  what \<open>getMe\<close> finds.
\<close>

definition own_id :: "'e client \<Rightarrow> int option" where
  "own_id c = selfInputPeer (resolve_self c)"


text \<open>
  A registry for closed instances, over events that hold a number. \<open>event0 n\<close> is an
  event to which the client can be attached; \<open>frozen n\<close> is one on which the first
  assignment throws. Every builder is resolved and accepts every event; \<open>builder0\<close>
  builds \<open>event0\<close> of the number of an \<open>OtherUpdate\<close>, and \<open>builder1\<close> builds a frozen
  event from the number 3 and \<open>event0\<close> from any other. The first callback throws an
  ordinary error, the second throws \<open>StopPropagation\<close> on the number 1 only, the third
  returns. \<open>client1\<close> has an error handler that returns, \<open>client2\<close> one that throws, and
  \<open>client3\<close> is \<open>client1\<close> with \<open>builder1\<close> in its second pair.
\<close>

definition event0 :: "nat \<Rightarrow> nat event" where
  "event0 n =
     \<lparr>payload = n, assign_client = None, has_eventName = Inr True, call_setClient = None,
      assign_originalUpdate = None, assign_entities = None\<rparr>"

definition frozen :: "nat \<Rightarrow> nat event" where
  "frozen n =
     (event0 n)\<lparr>assign_client := Some (TypeError ''Cannot add property _client, object is not extensible'')\<rparr>"

definition builder0 :: "nat builder" where
  "builder0 =
     \<lparr>resolved = True, resolve = None,
      build = (\<lambda>u self. case u of OtherUpdate n \<Rightarrow> Inr (Some (event0 n)) | _ \<Rightarrow> Inr None),
      filter' = (\<lambda>event. Inr True)\<rparr>"

definition builder1 :: "nat builder" where
  "builder1 =
     builder0
       \<lparr>build := (\<lambda>u self. case u of
                     OtherUpdate n \<Rightarrow> Inr (Some (if n = 3 then frozen n else event0 n))
                   | _ \<Rightarrow> Inr None)\<rparr>"

definition client1 :: "nat client" where
  "client1 =
     client0
       \<lparr>eventBuilders :=
          [(Some builder0, Some (\<lambda>event. Some (Error ''boom''))),
           (Some builder0, Some (\<lambda>event. if payload event = 1 then Some StopPropagation else None)),
           (Some builder0, Some (\<lambda>event. None))],
        errorHandler := Some (\<lambda>e. None)\<rparr>"


definition client3 :: "nat client" where
  "client3 =
     client1
       \<lparr>eventBuilders :=
          [(Some builder0, Some (\<lambda>event. Some (Error ''boom''))),
           (Some builder1, Some (\<lambda>event. if payload event = 1 then Some StopPropagation else None)),
           (Some builder0, Some (\<lambda>event. None))]\<rparr>"

definition args_of :: "nat \<Rightarrow> dispatch_args" where
  "args_of n = \<lparr>update = OtherUpdate n, others = None, entities = None\<rparr>"

text \<open>
  The least number of characters a match of the expression consumes.
\<close>

fun minlen :: "regex \<Rightarrow> nat" where
  "minlen (Chr c) = 1"
| "minlen (Class P) = 1"
| "minlen (Seq a b) = minlen a + minlen b"
| "minlen (Alt a b) = min (minlen a) (minlen b)"
| "minlen (Star a) = 0"
| "minlen (Group n a) = minlen a"
| "minlen Bol = 0"
| "minlen Eol = 0"
| "minlen Empty = 0"

chapter \<open>Verified properties\<close>

section \<open>The IGE mode\<close>

lemma xorBuffers_length: "length (xorBuffers a b) = length a"
  by (induction a b rule: xorBuffers.induct) simp_all

lemma xorBuffers_cancel: "xorBuffers (xorBuffers a b) b = a"
  by (induction a b rule: xorBuffers.induct) (simp_all add: xor.assoc)

lemma copy_length: "length (copy src target i) = length target"
  by (auto simp: copy_def min_def)

lemma copy_block:
  assumes "i + length src \<le> length target"  "0 < length src"
  shows "copy src target i = take i target @ src @ drop (i + length src) target"
proof -
  from assms have "i < length target" by linarith
  with assms show ?thesis by (simp add: copy_def)
qed

lemma slice_block: "slice b i (i + 16) = take 16 (drop i b)"
  by (simp add: slice_def)

lemma encryptIge_loop_blocks:
  assumes k: "length (key c) = 32"
    and E: "\<And>b. length b = 16 \<Longrightarrow> length (E (key c) b) = 16"
    and al: "length p mod 16 = 0" "i mod 16 = 0" "i \<le> length p" "length out = length p"
  shows "encryptIge_loop E c p i pc pp out
           = Inr (take i out @ ige_encrypt_blocks E (key c) pc pp (drop i p))"
  using k E al
proof (induction E c p i pc pp out rule: encryptIge_loop.induct)
  case (1 E c p i pc pp out)
  show ?case
  proof (cases "i < length p")
    case False
    with 1 show ?thesis
      by (subst encryptIge_loop.simps) (simp add: ige_encrypt_blocks.simps)
  next
    case True
    have i16: "i + 16 \<le> length p" using True "1.prems" by presburger
    define pb where "pb = take 16 (drop i p)"
    have lpb: "length pb = 16" using i16 by (simp add: pb_def)
    define enc where "enc = E (key c) (xorBuffers pb pc)"
    have lenc: "length enc = 16"
      unfolding enc_def using "1.prems"(2) lpb by (simp add: xorBuffers_length)
    define cb where "cb = xorBuffers enc pp"
    have lcb: "length cb = 16" by (simp add: cb_def xorBuffers_length lenc)
    have aes: "aesEncryptBlock E c (xorBuffers pb pc) = Inr enc"
      using "1.prems"(1) lpb by (simp add: aesEncryptBlock_def xorBuffers_length enc_def)
    have cp: "copy cb out i = take i out @ cb @ drop (i + 16) out"
      using copy_block[of i cb out] lcb i16 "1.prems"(6) by simp
    have IH: "encryptIge_loop E c p (i + 16) cb pb (copy cb out i)
       = Inr (take (i + 16) (copy cb out i) @ ige_encrypt_blocks E (key c) cb pb (drop (i + 16) p))"
      apply (rule "1.IH"[OF True, of pb "xorBuffers pb pc" enc cb])
      using "1.prems" i16 aes 
      by (simp_all add: pb_def slice_block cb_def copy_length)
    have tk: "take (i + 16) (copy cb out i) = take i out @ cb"
      using cp lcb i16 "1.prems"(6) by (simp add: min_def)
    have dn: "drop i p \<noteq> []" using True by simp
    have blocks: "ige_encrypt_blocks E (key c) pc pp (drop i p)
        = cb @ ige_encrypt_blocks E (key c) cb pb (drop (i + 16) p)"
      using dn by (subst ige_encrypt_blocks.simps) (simp add: Let_def pb_def cb_def enc_def add.commute)
    show ?thesis
      using True aes IH tk blocks
      by (subst encryptIge_loop.simps) (simp add: Let_def slice_block pb_def[symmetric] cb_def[symmetric])
  qed
qed

lemma decryptIge_loop_blocks:
  assumes k: "length (key c) = 32"
    and D: "\<And>b. length b = 16 \<Longrightarrow> length (D (key c) b) = 16"
    and al: "length p mod 16 = 0" "i mod 16 = 0" "i \<le> length p" "length out = length p"
  shows "decryptIge_loop D c p i pc pp out
           = Inr (take i out @ ige_decrypt_blocks D (key c) pc pp (drop i p))"
  using k D al
proof (induction D c p i pc pp out rule: decryptIge_loop.induct)
  case (1 D c p i pc pp out)
  show ?case
  proof (cases "i < length p")
    case False
    with 1 show ?thesis
      by (subst decryptIge_loop.simps) (simp add: ige_decrypt_blocks.simps)
  next
    case True
    have i16: "i + 16 \<le> length p" using True "1.prems" by presburger
    define cb where "cb = take 16 (drop i p)"
    have lcb: "length cb = 16" using i16 by (simp add: cb_def)
    define dec where "dec = D (key c) (xorBuffers cb pp)"
    have ldec: "length dec = 16"
      unfolding dec_def using "1.prems"(2) lcb by (simp add: xorBuffers_length)
    define pb where "pb = xorBuffers dec pc"
    have lpb: "length pb = 16" by (simp add: pb_def xorBuffers_length ldec)
    have aes: "aesDecryptBlock D c (xorBuffers cb pp) = Inr dec"
      using "1.prems"(1) lcb by (simp add: aesDecryptBlock_def xorBuffers_length dec_def)
    have cp: "copy pb out i = take i out @ pb @ drop (i + 16) out"
      using copy_block[of i pb out] lpb i16 "1.prems"(6) by simp
    have IH: "decryptIge_loop D c p (i + 16) cb pb (copy pb out i)
       = Inr (take (i + 16) (copy pb out i) @ ige_decrypt_blocks D (key c) cb pb (drop (i + 16) p))"
      apply (rule "1.IH"[OF True, of cb "xorBuffers cb pp" dec pb])
      using "1.prems" i16 aes 
      by (simp_all add: pb_def slice_block cb_def copy_length)
    have tk: "take (i + 16) (copy pb out i) = take i out @ pb"
      using cp lpb i16 "1.prems"(6) by (simp add: min_def)
    have dn: "drop i p \<noteq> []" using True by simp
    have blocks: "ige_decrypt_blocks D (key c) pc pp (drop i p)
        = pb @ ige_decrypt_blocks D (key c) cb pb (drop (i + 16) p)"
      using dn by (subst ige_decrypt_blocks.simps) (simp add: Let_def pb_def cb_def dec_def add.commute)
    show ?thesis
      using True aes IH tk blocks
      by (subst decryptIge_loop.simps) (simp add: Let_def slice_block pb_def[symmetric] cb_def[symmetric])
  qed
qed

lemma ige_blocks_roundtrip:
  assumes bc: "aes_block_cipher E D" and k: "length k = 32"
    and al: "length p mod 16 = 0"
  shows "ige_decrypt_blocks D k pc pp (ige_encrypt_blocks E k pc pp p) = p"
  using al
proof (induction "length p" arbitrary: p pc pp rule: less_induct)
  case less
  show ?case
  proof (cases "p = []")
    case True
    then show ?thesis
      by (simp add: ige_encrypt_blocks.simps[of _ _ _ _ "[]"] ige_decrypt_blocks.simps[of _ _ _ _ "[]"])
  next
    case False
    with less.prems have l16: "16 \<le> length p" by (cases "length p < 16") auto
    define pb where "pb = take 16 p"
    have lpb: "length pb = 16" using l16 by (simp add: pb_def)
    define enc where "enc = E k (xorBuffers pb pc)"
    have lenc: "length enc = 16" and inv: "D k enc = xorBuffers pb pc"
      using bc k lpb by (auto simp: aes_block_cipher_def enc_def xorBuffers_length)
    define cb where "cb = xorBuffers enc pp"
    have lcb: "length cb = 16" by (simp add: cb_def xorBuffers_length lenc)
    define rest where "rest = ige_encrypt_blocks E k cb pb (drop 16 p)"
    have e: "ige_encrypt_blocks E k pc pp p = cb @ rest"
      using False
      by (subst ige_encrypt_blocks.simps) (simp add: Let_def pb_def cb_def enc_def rest_def)
    have bk: "xorBuffers (D k (xorBuffers cb pp)) pc = pb"
      by (simp add: cb_def xorBuffers_cancel inv)
    have al': "(length p - 16) mod 16 = 0"
      using less.prems l16 by presburger
    have IH: "ige_decrypt_blocks D k cb pb rest = drop 16 p"
      unfolding rest_def
      using less.hyps[of "drop 16 p" cb pb] al' l16 by simp
    have "ige_decrypt_blocks D k pc pp (cb @ rest) = pb @ ige_decrypt_blocks D k cb pb rest"
      using lcb
      by (subst ige_decrypt_blocks.simps) (auto simp add: Let_def bk)
    with e IH show ?thesis by (simp add: pb_def)
  qed
qed


lemma ige_encrypt_blocks_length:
  assumes E: "\<And>b. length b = 16 \<Longrightarrow> length (E k b) = 16"
    and al: "length p mod 16 = 0"
  shows "length (ige_encrypt_blocks E k pc pp p) = length p"
  using al
proof (induction "length p" arbitrary: p pc pp rule: less_induct)
  case less
  show ?case
  proof (cases "p = []")
    case True
    then show ?thesis by (simp add: ige_encrypt_blocks.simps[of _ _ _ _ "[]"])
  next
    case False
    with less.prems have l16: "16 \<le> length p" by (cases "length p < 16") auto
    have al': "(length p - 16) mod 16 = 0"
      using less.prems l16 by presburger
    have "length (xorBuffers (E k (xorBuffers (take 16 p) pc)) pp) = 16"
      using E[of "xorBuffers (take 16 p) pc"] l16 by (simp add: xorBuffers_length)
    moreover have "length (ige_encrypt_blocks E k
        (xorBuffers (E k (xorBuffers (take 16 p) pc)) pp) (take 16 p) (drop 16 p)) = length p - 16"
      using less.hyps[of "drop 16 p"] al' l16 by simp
    ultimately show ?thesis
      using False l16 by (subst ige_encrypt_blocks.simps) (simp add: Let_def)
  qed
qed

lemma decryptIge_loop_returns:
  assumes k: "length (key c) = 32"
    and al: "length ct mod 16 = 0" "i mod 16 = 0"
  shows "\<exists>p. decryptIge_loop D c ct i pc pp out = Inr p \<and> length p = length out"
  using k al
proof (induction D c ct i pc pp out rule: decryptIge_loop.induct)
  case (1 D c ct i pc pp out)
  show ?case
  proof (cases "i < length ct")
    case False
    then show ?thesis by (subst decryptIge_loop.simps) simp
  next
    case True
    have i16: "i + 16 \<le> length ct" using True "1.prems" by presburger
    define cb where "cb = slice ct i (i + 16)"
    have lcb: "length cb = 16" using i16 by (simp add: cb_def slice_def)
    define dec where "dec = D (key c) (xorBuffers cb pp)"
    have aes: "aesDecryptBlock D c (xorBuffers cb pp) = Inr dec"
      using "1.prems"(1) lcb by (simp add: aesDecryptBlock_def xorBuffers_length dec_def)
    have "\<exists>p. decryptIge_loop D c ct (i + 16) cb (xorBuffers dec pc) (copy (xorBuffers dec pc) out i) = Inr p
            \<and> length p = length (copy (xorBuffers dec pc) out i)"
      apply (rule "1.IH"[OF True, of cb "xorBuffers cb pp" dec "xorBuffers dec pc"])
      using "1.prems" aes by (simp_all add: cb_def)
    then show ?thesis
      using True aes
      by (subst decryptIge_loop.simps) (simp add: Let_def cb_def[symmetric] copy_length)
  qed
qed

text \<open>
  Claim C2. For every 32-byte key, every 32-byte IV and every plaintext, encrypting and then
  decrypting with the same key and IV succeeds, and the decrypted buffer is the plaintext
  followed by the random bytes that padded it to a multiple of 16: the plaintext is its
  prefix, and when the plaintext is block-aligned the round trip gives exactly the plaintext.
  The AES primitive enters through \<open>aes_block_cipher\<close>.
\<close>

theorem encryptIge_decryptIge_roundtrip:
  assumes bc: "aes_block_cipher E D"
    and k: "length k = 32" and v: "length v = 32"
    and rnd: "\<forall>n. length (generateRandomBytes n) = n"
  shows "\<exists>c ct. IGE_new k v = Inr c
           \<and> encryptIge E generateRandomBytes c p = Inr ct
           \<and> decryptIge D c ct
               = Inr (p @ (if length p mod 16 = 0 then []
                           else generateRandomBytes (16 - length p mod 16)))
           \<and> (\<exists>p'. decryptIge D c ct = Inr p' \<and> take (length p) p' = p
                    \<and> (length p mod 16 = 0 \<longrightarrow> p' = p))"
proof -
  define c where "c = \<lparr>key = k, iv = v\<rparr>"
  have new: "IGE_new k v = Inr c" using k v by (simp add: IGE_new_def c_def)
  have kc: "length (key c) = 32" "key c = k" using k by (simp_all add: c_def)
  define tl where "tl = (if length p mod 16 = 0 then []
                           else generateRandomBytes (16 - length p mod 16))"
  define q where "q = p @ tl"
  have lq: "length q mod 16 = 0"
    using rnd by (auto simp: q_def tl_def) presburger
  have E16: "\<And>b. length b = 16 \<Longrightarrow> length (E (key c) b) = 16"
    and D16: "\<And>b. length b = 16 \<Longrightarrow> length (D (key c) b) = 16"
    using bc kc by (auto simp: aes_block_cipher_def)
  define iv1 where "iv1 = slice (iv c) 0 16"
  define iv2 where "iv2 = slice (iv c) 16 32"
  define ct where "ct = ige_encrypt_blocks E k iv1 iv2 q"
  have "encryptIge_loop E c q 0 iv1 iv2 (replicate (length q) 0)
          = Inr (take 0 (replicate (length q) 0) @ ige_encrypt_blocks E (key c) iv1 iv2 (drop 0 q))"
    by (rule encryptIge_loop_blocks) (use kc E16 lq in simp_all)
  then have enc: "encryptIge E generateRandomBytes c p = Inr ct"
    by (auto simp: encryptIge_def Let_def q_def tl_def iv1_def iv2_def ct_def kc)
  have lct: "length ct = length q"
    unfolding ct_def using ige_encrypt_blocks_length[of E k q iv1 iv2] E16 lq kc by simp
  have "decryptIge_loop D c ct 0 iv1 iv2 (replicate (length ct) 0)
          = Inr (take 0 (replicate (length ct) 0) @ ige_decrypt_blocks D (key c) iv1 iv2 (drop 0 ct))"
    by (rule decryptIge_loop_blocks) (use kc D16 lq lct in simp_all)
  moreover have "ige_decrypt_blocks D k iv1 iv2 ct = q"
    unfolding ct_def by (rule ige_blocks_roundtrip[OF bc k lq])
  ultimately have dec: "decryptIge D c ct = Inr q"
    using lq lct by (simp add: decryptIge_def Let_def iv1_def iv2_def kc)
  show ?thesis
    using new enc dec by (auto simp: q_def tl_def)
qed

theorem encryptIge_decryptIge_roundtrip_witness:
  "aes_block_cipher (\<lambda>k. map (\<lambda>x. x + 1)) (\<lambda>k. map (\<lambda>x. x - 1))
   \<and> length (replicate 32 (1 :: byte)) = 32 \<and> length (replicate 32 (2 :: byte)) = 32
   \<and> (\<forall>n. length (replicate n (9 :: byte)) = n)
   \<and> (\<exists>c ct. IGE_new (replicate 32 1) (replicate 32 2) = Inr c
         \<and> encryptIge (\<lambda>k. map (\<lambda>x. x + 1)) (\<lambda>n. replicate n 9) c [1, 2, 3] = Inr ct
         \<and> decryptIge (\<lambda>k. map (\<lambda>x. x - 1)) c ct = Inr ([1, 2, 3] @ replicate 13 9))"
proof -
  have bc: "aes_block_cipher (\<lambda>k. map (\<lambda>x. x + 1)) (\<lambda>k. map (\<lambda>x. x - 1))"
    by (simp add: aes_block_cipher_def o_def)
  have k: "length (replicate 32 (1 :: byte)) = 32" and v: "length (replicate 32 (2 :: byte)) = 32"
    by simp_all
  have rnd: "\<forall>n. length (replicate n (9 :: byte)) = n" by simp
  show ?thesis
    using bc rnd encryptIge_decryptIge_roundtrip[OF bc k v rnd, of "[1, 2, 3]"]
    by auto
qed

text \<open>
  Claim C4. On a cipher object made by the constructor, \<open>decryptIge\<close> throws the error
  "Cipher text must be multiple of 16 bytes" exactly when the length of the ciphertext is not
  a multiple of 16; it throws nothing else, and for every block-aligned ciphertext it returns
  a buffer of the ciphertext's length. No assumption is made on the decryption primitive.
\<close>

theorem decryptIge_framing_error:
  assumes "IGE_new k v = Inr c"
  shows "(decryptIge D c ct = Inl (Error ''Cipher text must be multiple of 16 bytes''))
           = (length ct mod 16 \<noteq> 0)
       \<and> isl (decryptIge D c ct) = (length ct mod 16 \<noteq> 0)
       \<and> (\<exists>p. decryptIge D c ct = Inr p \<and> length p = length ct) = (length ct mod 16 = 0)"
proof (cases "length ct mod 16 = 0")
  case False
  then show ?thesis by (simp add: decryptIge_def)
next
  case True
  from assms have k: "length (key c) = 32"
    by (auto simp: IGE_new_def split: if_splits)
  from decryptIge_loop_returns[OF k True, of 0 D "slice (iv c) 0 16" "slice (iv c) 16 32"
      "replicate (length ct) 0"]
  obtain p where "decryptIge_loop D c ct 0 (slice (iv c) 0 16) (slice (iv c) 16 32)
      (replicate (length ct) 0) = Inr p" "length p = length ct"
    by auto
  with True show ?thesis by (simp add: decryptIge_def)
qed

theorem decryptIge_framing_error_witness:
  "IGE_new (replicate 32 1) (replicate 32 2) = Inr \<lparr>key = replicate 32 1, iv = replicate 32 2\<rparr>
   \<and> decryptIge (\<lambda>k b. b) \<lparr>key = replicate 32 1, iv = replicate 32 2\<rparr> [7, 7, 7]
       = Inl (Error ''Cipher text must be multiple of 16 bytes'')
   \<and> isl (decryptIge (\<lambda>k b. b) \<lparr>key = replicate 32 1, iv = replicate 32 2\<rparr> [])
       = False"
proof -
  have h: "IGE_new (replicate 32 1) (replicate 32 2) = Inr \<lparr>key = replicate 32 1, iv = replicate 32 2\<rparr>"
    by (simp add: IGE_new_def)
  show ?thesis
    using h decryptIge_framing_error[OF h, of "\<lambda>k b. b" "[7, 7, 7]"]
      decryptIge_framing_error[OF h, of "\<lambda>k b. b" "[]"]
    by simp
qed

section \<open>The update module: catching up\<close>

subsection \<open>What a dispatch leaves alone\<close>

lemma frame_refl [simp]: "frame c c"
  by (simp add: frame_def)

lemma frame_trans: "frame a b \<Longrightarrow> frame b c \<Longrightarrow> frame a c"
  by (simp add: frame_def)

lemma frame_log_msg [simp]: "frame c (log_msg l m e c')  = frame c c'"
  by (simp add: frame_def log_msg_def)

lemma dispatched_log_msg [simp]: "dispatched (log_msg l m e c) = dispatched c"
  by (simp add: log_msg_def)

lemma resolve_self_frame: "frame c (resolve_self c) \<and> dispatched (resolve_self c) = dispatched c"
  by (simp add: resolve_self_def frame_def split: option.splits sum.splits)

lemma run_callback_frame:
  "run_callback c i cb ev = (c', ctl) \<Longrightarrow> frame c c' \<and> dispatched c' = dispatched c"
  by (auto simp: run_callback_def Let_def frame_def log_msg_def split: option.splits if_splits)

lemma dispatch_pair_frame:
  "dispatch_pair c args i p = (c', p', ctl) \<Longrightarrow> frame c c' \<and> dispatched c' = dispatched c"
  using resolve_self_frame[of c]
  by (auto simp: dispatch_pair_def Let_def split: option.splits sum.splits bool.splits prod.splits
      dest!: run_callback_frame intro: frame_trans)

lemma dispatch_pairs_frame:
  "dispatch_pairs c args i ps = (c', ps', r) \<Longrightarrow> frame c c' \<and> dispatched c' = dispatched c"
proof (induction ps arbitrary: c i c' ps' r)
  case Nil
  then show ?case by simp
next
  case (Cons p ps)
  obtain c1 p1 ctl where step: "dispatch_pair c args i p = (c1, p1, ctl)"
    by (cases "dispatch_pair c args i p") auto
  note f1 = dispatch_pair_frame[OF step]
  show ?case
  proof (cases ctl)
    case Continue
    obtain c2 ps2 r2 where rest: "dispatch_pairs c1 args (Suc i) ps = (c2, ps2, r2)"
      by (cases "dispatch_pairs c1 args (Suc i) ps") auto
    from Cons.IH[OF rest] f1 Cons.prems step Continue rest show ?thesis
      by (auto intro: frame_trans)
  next
    case Break
    with f1 Cons.prems step show ?thesis by auto
  next
    case (Throw e)
    with f1 Cons.prems step show ?thesis by auto
  qed
qed

lemma dispatchUpdate_frame:
  assumes "dispatchUpdate c args = (c', r)"
  shows "frame c c' \<and> dispatched c' = dispatched c @ [args]"
proof -
  obtain c1 ps1 r1 where
    d: "dispatch_pairs (c\<lparr>dispatched := dispatched c @ [args]\<rparr>) args 0 (eventBuilders c) = (c1, ps1, r1)"
    by (cases "dispatch_pairs (c\<lparr>dispatched := dispatched c @ [args]\<rparr>) args 0 (eventBuilders c)") auto
  from dispatch_pairs_frame[OF d] assms d show ?thesis
    by (auto simp: dispatchUpdate_def frame_def)
qed

lemma processUpdate_Obj:
  assumes "processUpdate c (Obj u) oth ents = (c', r)"
  shows "r = None \<and> frame c c' \<and> dispatched c' = dispatched c @ [tagged oth ents u]"
proof -
  obtain c1 r1 where d: "dispatchUpdate c (tagged oth ents u) = (c1, r1)"
    by (cases "dispatchUpdate c (tagged oth ents u)") auto
  from dispatchUpdate_frame[OF d] assms d show ?thesis
    by (auto simp: processUpdate_def tagged_def Let_def split: option.splits)
qed

lemma processUpdates_frame:
  "processUpdates c us oth ents = (c', r) \<Longrightarrow>
     r = None \<and> frame c c' \<and> dispatched c' = dispatched c @ map (tagged oth ents) us"
proof (induction us arbitrary: c)
  case Nil
  then show ?case by simp
next
  case (Cons u us)
  obtain c1 r1 where s: "processUpdate c (Obj u) oth ents = (c1, r1)"
    by (cases "processUpdate c (Obj u) oth ents") auto
  from processUpdate_Obj[OF s] have r1: "r1 = None" and f: "frame c c1"
    and d: "dispatched c1 = dispatched c @ [tagged oth ents u]" by auto
  from Cons.prems s r1 have "processUpdates c1 us oth ents = (c', r)" by simp
  from Cons.IH[OF this] f d show ?case by (auto intro: frame_trans)
qed

lemma processNewMessages_frame:
  "processNewMessages c msgs ents = (c', r) \<Longrightarrow>
     r = None \<and> frame c c'
     \<and> dispatched c' = dispatched c
          @ map (\<lambda>m. tagged None (Some ents) (UpdateNewMessage m 0 0)) (filter wrapped msgs)"
proof (induction msgs arbitrary: c)
  case Nil
  then show ?case by simp
next
  case (Cons m msgs)
  show ?case
  proof (cases "wrapped m")
    case False
    with Cons.prems have "processNewMessages c msgs ents = (c', r)" by simp
    from Cons.IH[OF this] False show ?thesis by simp
  next
    case True
    obtain c1 r1 where s: "processUpdate c (Obj (UpdateNewMessage m 0 0)) None (Some ents) = (c1, r1)"
      by (cases "processUpdate c (Obj (UpdateNewMessage m 0 0)) None (Some ents)") auto
    from processUpdate_Obj[OF s] have r1: "r1 = None" and f: "frame c c1"
      and d: "dispatched c1 = dispatched c @ [tagged None (Some ents) (UpdateNewMessage m 0 0)]"
      by auto
    from Cons.prems s r1 True have "processNewMessages c1 msgs ents = (c', r)" by simp
    from Cons.IH[OF this] True f d show ?thesis by (auto intro: frame_trans)
  qed
qed

lemma processDifference_frame:
  assumes "processDifference c diff d = (c', r)"
  shows "r = None \<and> updateState c' = updateState c \<and> requests c' = requests c
         \<and> dispatched c' = dispatched c @ fanned_out d"
proof -
  define c2 where "c2 = c\<lparr>entityCache := entityCache c @ [OfDifference diff],
                          sessionEntities := sessionEntities c @ [OfDifference diff]\<rparr>"
  obtain c3 r3 where m: "processNewMessages c2 (newMessages d) (diff_entities d) = (c3, r3)"
    by (cases "processNewMessages c2 (newMessages d) (diff_entities d)") auto
  note fm = processNewMessages_frame[OF m]
  from assms m fm have u: "processUpdates c3 (otherUpdates d) (Some (otherUpdates d)) (Some (diff_entities d)) = (c', r)"
    by (simp add: processDifference_def Let_def c2_def diff_entities_def)
  note fu = processUpdates_frame[OF u]
  from fm fu show ?thesis
    by (simp add: frame_def fanned_out_def c2_def)
qed

subsection \<open>The fetch loop\<close>

lemma sent_simps [simp]:
  "updateState (sent r c) = updateState c" "dispatched (sent r c) = dispatched c"
  "requests (sent r c) = requests c @ [r]" "logged (sent r c) = logged c"
  by (simp_all add: sent_def)

lemma log_msg_simps [simp]:
  "updateState (log_msg l m e c) = updateState c"
  "requests (log_msg l m e c) = requests c"
  "logged (log_msg l m e c) = logged c @ [(l, m, e)]"
  by (simp_all add: log_msg_def)

lemma catchUp_loop_slice:
  assumes "updateState c = Some st"
  shows "\<exists>c1. catchUp_loop c (Inr (DifferenceSlice b s) # rs) = catchUp_loop c1 rs
            \<and> updateState c1 = Some (new_state s)
            \<and> dispatched c1 = dispatched c @ fanned_out b
            \<and> length (requests c1) = Suc (length (requests c))"
proof -
  define c1 where "c1 = sent (GetDifference (pts st) (date st) (qts st)) c"
  obtain c2 r where pd: "processDifference c1 (DifferenceSlice b s) b = (c2, r)"
    by (cases "processDifference c1 (DifferenceSlice b s) b") auto
  from processDifference_frame[OF pd] assms pd show ?thesis
    by (intro exI[of _ "c2\<lparr>updateState := Some (new_state s)\<rparr>"]) (simp add: c1_def)
qed

lemma catchUp_loop_slices:
  assumes "updateState c = Some st"
  shows "\<exists>c1. catchUp_loop c (slices sl @ rest) = catchUp_loop c1 rest
            \<and> updateState c1 = Some (state_after st sl)
            \<and> dispatched c1 = dispatched c @ concat (map (\<lambda>(b, s). fanned_out b) sl)
            \<and> length (requests c1) = length (requests c) + length sl"
  using assms
proof (induction sl arbitrary: c st)
  case Nil
  then show ?case by (auto simp: slices_def state_after_def)
next
  case (Cons x sl)
  obtain b s where x: "x = (b, s)" by (cases x)
  from catchUp_loop_slice[OF Cons.prems, of b s "slices sl @ rest"]
  obtain c1 where 1: "catchUp_loop c (Inr (DifferenceSlice b s) # slices sl @ rest)
                        = catchUp_loop c1 (slices sl @ rest)"
    and 2: "updateState c1 = Some (new_state s)"
    and 3: "dispatched c1 = dispatched c @ fanned_out b"
    and 4: "length (requests c1) = Suc (length (requests c))"
    by blast
  from Cons.IH[OF 2] obtain c2 where 5: "catchUp_loop c1 (slices sl @ rest) = catchUp_loop c2 rest"
    and 6: "updateState c2 = Some (state_after (new_state s) sl)"
    and 7: "dispatched c2 = dispatched c1 @ concat (map (\<lambda>(b, s). fanned_out b) sl)"
    and 8: "length (requests c2) = length (requests c1) + length sl"
    by blast
  have "state_after (new_state s) sl = state_after st (x # sl)"
    by (simp add: state_after_def x)
  with 1 3 4 5 6 7 8 show ?case
    by (intro exI[of _ c2]) (simp add: x slices_def)
qed

text \<open>
  Claim C7. Let the client have a state and let \<open>catchUp\<close> receive a \<open>DifferenceTooLong\<close>
  reply, first or after any run of slices. Then the state after \<open>catchUp\<close> is the state held
  when the reply came with \<open>pts\<close> set to the reply's \<open>pts\<close>, so \<open>qts\<close>, \<open>date\<close> and
  \<open>seq\<close> are as they were; the only dispatches are those of the slices before it, none for
  the reply itself; the warning is logged, followed only by the closing debug line; and the
  loop stops: one request per slice and one for this reply were sent, and the later replies
  are left with the server.
\<close>

theorem catchUp_DifferenceTooLong:
  assumes "updateState c = Some st"
    and "differenceReplies srv = slices sl @ Inr (DifferenceTooLong p) # rs"
  shows "case catchUp c srv of (c', srv') \<Rightarrow>
           updateState c' = Some ((state_after st sl)\<lparr>pts := p\<rparr>)
         \<and> dispatched c' = dispatched c @ concat (map (\<lambda>(b, s). fanned_out b) sl)
         \<and> (\<exists>l. logged c' = l @ [(Warn, ''Too many updates missed, some may be lost'', None),
                                   (Debug, ''Catch up complete'', None)])
         \<and> length (requests c') = length (requests c) + length sl + 1
         \<and> differenceReplies srv' = rs"
proof -
  define c0 where "c0 = log_msg Debug ''Catching up on missed updates...'' None c"
  have s0: "updateState c0 = Some st" by (simp add: c0_def assms)
  from catchUp_loop_slices[OF s0, of sl "Inr (DifferenceTooLong p) # rs"]
  obtain c1 where 1: "catchUp_loop c0 (slices sl @ Inr (DifferenceTooLong p) # rs)
                        = catchUp_loop c1 (Inr (DifferenceTooLong p) # rs)"
    and 2: "updateState c1 = Some (state_after st sl)"
    and 3: "dispatched c1 = dispatched c0 @ concat (map (\<lambda>(b, s). fanned_out b) sl)"
    and 4: "length (requests c1) = length (requests c0) + length sl"
    by blast
  show ?thesis
    using assms 1 2 3 4
    by (simp add: catchUp_def catchUp_body_def c0_def[symmetric] Let_def)
       (simp add: c0_def)
qed

lemma catchUp_loop_Difference:
  assumes "updateState c = Some st"
  shows "\<exists>c1. catchUp_loop c (Inr (Difference b s) # rs) = (c1, None, rs)
            \<and> updateState c1 = Some (new_state s)
            \<and> dispatched c1 = dispatched c @ fanned_out b"
proof -
  define c1 where "c1 = sent (GetDifference (pts st) (date st) (qts st)) c"
  obtain c2 r where pd: "processDifference c1 (Difference b s) b = (c2, r)"
    by (cases "processDifference c1 (Difference b s) b") auto
  from processDifference_frame[OF pd] assms pd show ?thesis
    by (simp add: c1_def)
qed

theorem catchUp_DifferenceTooLong_witness:
  "updateState client0 = Some \<lparr>pts = 10, qts = 20, date = 30, seq = 40\<rparr>
   \<and> differenceReplies (server0\<lparr>differenceReplies := [Inr (DifferenceTooLong 99), Inr (DifferenceEmpty 1 2)]\<rparr>)
       = slices [] @ Inr (DifferenceTooLong 99) # [Inr (DifferenceEmpty 1 2)]
   \<and> (case catchUp client0 (server0\<lparr>differenceReplies := [Inr (DifferenceTooLong 99), Inr (DifferenceEmpty 1 2)]\<rparr>) of
        (c', srv') \<Rightarrow>
          updateState c' = Some \<lparr>pts = 99, qts = 20, date = 30, seq = 40\<rparr>
        \<and> dispatched c' = []
        \<and> differenceReplies srv' = [Inr (DifferenceEmpty 1 2)])"
proof -
  have h1: "updateState client0 = Some \<lparr>pts = 10, qts = 20, date = 30, seq = 40\<rparr>"
    by (simp add: client0_def)
  have h2: "differenceReplies (server0\<lparr>differenceReplies := [Inr (DifferenceTooLong 99), Inr (DifferenceEmpty 1 2)]\<rparr>)
       = slices [] @ Inr (DifferenceTooLong 99) # [Inr (DifferenceEmpty 1 2)]"
    by (simp add: slices_def)
  show ?thesis
    using h1 h2 catchUp_DifferenceTooLong[OF h1 h2]
    by (auto simp: state_after_def client0_def split: prod.splits)
qed

text \<open>
  Claim C3, amended. \<open>DifferenceEmpty\<close> ends the loop, so a single \<open>catchUp\<close> that is
  answered by Empty, Slice, Slice, Full takes the date and seq of the empty reply, dispatches
  nothing and leaves the three later replies with the server. The \<open>catchUp\<close> after it
  receives Slice, Slice, Full: it ends with the state embedded in the full difference, and
  the dispatches are exactly those of the first slice, of the second slice and of the full
  difference, in this order, where a difference gives one dispatch for each \<open>Message\<close> or
  \<open>MessageService\<close> among its new messages (a \<open>MessageEmpty\<close> gives none) and then one
  for each of its other updates (\<open>fanned_out\<close>).
\<close>

theorem catchUp_Empty_Slice_Slice_Difference:
  assumes "updateState c = Some st"
    and "differenceReplies srv =
           Inr (DifferenceEmpty d s) # Inr (DifferenceSlice b1 s1) # Inr (DifferenceSlice b2 s2)
             # Inr (Difference b3 s3) # rs"
  shows "case catchUp c srv of (c1, srv1) \<Rightarrow>
           updateState c1 = Some (st\<lparr>date := d, seq := s\<rparr>)
         \<and> dispatched c1 = dispatched c
         \<and> differenceReplies srv1 =
             Inr (DifferenceSlice b1 s1) # Inr (DifferenceSlice b2 s2) # Inr (Difference b3 s3) # rs
         \<and> (case catchUp c1 srv1 of (c2, srv2) \<Rightarrow>
               updateState c2 = Some (new_state s3)
             \<and> dispatched c2 = dispatched c @ fanned_out b1 @ fanned_out b2 @ fanned_out b3
             \<and> differenceReplies srv2 = rs)"
proof -
  obtain c1 srv1 where r1: "catchUp c srv = (c1, srv1)" by (cases "catchUp c srv") auto
  from r1 assms have 1: "updateState c1 = Some (st\<lparr>date := d, seq := s\<rparr>)"
    and 2: "dispatched c1 = dispatched c"
    and 3: "differenceReplies srv1 =
             Inr (DifferenceSlice b1 s1) # Inr (DifferenceSlice b2 s2) # Inr (Difference b3 s3) # rs"
    by (auto simp: catchUp_def catchUp_body_def Let_def)
  define c0 where "c0 = log_msg Debug ''Catching up on missed updates...'' None c1"
  have s0: "updateState c0 = Some (st\<lparr>date := d, seq := s\<rparr>)" by (simp add: c0_def 1)
  from catchUp_loop_slices[OF s0, of "[(b1, s1), (b2, s2)]" "Inr (Difference b3 s3) # rs"]
  obtain c' where 4: "catchUp_loop c0 (slices [(b1, s1), (b2, s2)] @ Inr (Difference b3 s3) # rs)
                        = catchUp_loop c' (Inr (Difference b3 s3) # rs)"
    and 5: "updateState c' = Some (state_after (st\<lparr>date := d, seq := s\<rparr>) [(b1, s1), (b2, s2)])"
    and 6: "dispatched c' = dispatched c0 @ concat (map (\<lambda>(b, s). fanned_out b) [(b1, s1), (b2, s2)])"
    by blast
  from catchUp_loop_Difference[OF 5, of b3 s3 rs]
  obtain c'' where 7: "catchUp_loop c' (Inr (Difference b3 s3) # rs) = (c'', None, rs)"
    and 8: "updateState c'' = Some (new_state s3)"
    and 9: "dispatched c'' = dispatched c' @ fanned_out b3"
    by blast
  have "case catchUp c1 srv1 of (c2, srv2) \<Rightarrow>
               updateState c2 = Some (new_state s3)
             \<and> dispatched c2 = dispatched c @ fanned_out b1 @ fanned_out b2 @ fanned_out b3
             \<and> differenceReplies srv2 = rs"
    using 1 2 3 4 6 7 8 9
    by (simp add: catchUp_def catchUp_body_def c0_def[symmetric] slices_def)
       (simp add: c0_def)
  with r1 1 2 3 show ?thesis by simp
qed

theorem catchUp_Empty_Slice_Slice_Difference_witness:
  "updateState client0 = Some \<lparr>pts = 10, qts = 20, date = 30, seq = 40\<rparr>
   \<and> differenceReplies server0 =
        Inr (DifferenceEmpty 31 41)
        # Inr (DifferenceSlice body1 \<lparr>pts = 11, qts = 21, date = 31, seq = 41\<rparr>)
        # Inr (DifferenceSlice body1 \<lparr>pts = 12, qts = 22, date = 32, seq = 42\<rparr>)
        # Inr (Difference body1 \<lparr>pts = 13, qts = 23, date = 33, seq = 43\<rparr>) # []
   \<and> (case catchUp client0 server0 of (c1, srv1) \<Rightarrow>
         updateState c1 = Some \<lparr>pts = 10, qts = 20, date = 31, seq = 41\<rparr>
         \<and> (case catchUp c1 srv1 of (c2, srv2) \<Rightarrow>
               updateState c2 = Some \<lparr>pts = 13, qts = 23, date = 33, seq = 43\<rparr>
             \<and> map update (dispatched c2)
                 = [UpdateNewMessage (Message 1) 0 0, OtherUpdate 3,
                    UpdateNewMessage (Message 1) 0 0, OtherUpdate 3,
                    UpdateNewMessage (Message 1) 0 0, OtherUpdate 3]
             \<and> differenceReplies srv2 = []))"
proof -
  have h1: "updateState client0 = Some \<lparr>pts = 10, qts = 20, date = 30, seq = 40\<rparr>"
    by (simp add: client0_def)
  have h2: "differenceReplies server0 =
        Inr (DifferenceEmpty 31 41)
        # Inr (DifferenceSlice body1 \<lparr>pts = 11, qts = 21, date = 31, seq = 41\<rparr>)
        # Inr (DifferenceSlice body1 \<lparr>pts = 12, qts = 22, date = 32, seq = 42\<rparr>)
        # Inr (Difference body1 \<lparr>pts = 13, qts = 23, date = 33, seq = 43\<rparr>) # []"
    by (simp add: server0_def)
  have f: "map update (fanned_out body1) = [UpdateNewMessage (Message 1) 0 0, OtherUpdate 3]"
    by (simp add: fanned_out_def body1_def tagged_def)
  show ?thesis
    using h1 h2 catchUp_Empty_Slice_Slice_Difference[OF h1 h2] f
    by (auto simp: new_state_def client0_def split: prod.splits)
qed

text \<open>
  The claim as stated fails: answered by Empty, Slice, Slice, Full, one \<open>catchUp\<close> ends with
  the old \<open>pts\<close> and \<open>qts\<close>, not with the state of the full difference, has dispatched
  nothing, and has left three replies unrequested.
\<close>

theorem catchUp_stops_at_DifferenceEmpty:
  "updateState (fst (catchUp client0 server0)) = Some \<lparr>pts = 10, qts = 20, date = 31, seq = 41\<rparr>
   \<and> updateState (fst (catchUp client0 server0)) \<noteq> Some \<lparr>pts = 13, qts = 23, date = 33, seq = 43\<rparr>
   \<and> dispatched (fst (catchUp client0 server0)) = []
   \<and> length (differenceReplies (snd (catchUp client0 server0))) = 3"
  by (simp add: catchUp_def catchUp_body_def client0_def server0_def log_msg_def sent_def)

section \<open>The update module: handleUpdate on a number\<close>

text \<open>
  Claim C10, amended. A number outside \<open>{-1, 0, 1}\<close> is not wrapped into a connection-state
  update. It is passed to the entity cache and to the session, and then to \<open>processUpdate\<close>
  alone, with no \<open>others\<close> and no entities; there the assignment of \<open>_entities\<close> to a
  primitive number throws, \<open>handleUpdate\<close> logs the exception, and no dispatch and no
  callback invocation takes place.
\<close>

theorem handleUpdate_other_number:
  assumes "n \<notin> {-1, 0, 1}"
  shows "handleUpdate c (Num n)
           = log_msg Err ''Error handling update''
               (Some (TypeError ''Cannot create property _entities on number''))
               (c\<lparr>entityCache := entityCache c @ [OfUpdate (Num n)],
                  sessionEntities := sessionEntities c @ [OfUpdate (Num n)]\<rparr>)
         \<and> dispatched (handleUpdate c (Num n)) = dispatched c
         \<and> called (handleUpdate c (Num n)) = called c"
  using assms
  by (simp add: handleUpdate_def handleUpdate_body_def processUpdate_def Let_def log_msg_def)

text \<open>
  The claim as stated fails: for the number 5 nothing is dispatched, and the one thing
  logged is the exception.
\<close>

theorem handleUpdate_other_number_not_dispatched:
  "dispatched (handleUpdate client0 (Num 5)) = []
   \<and> logged (handleUpdate client0 (Num 5))
       = [(Err, ''Error handling update'',
           Some (TypeError ''Cannot create property _entities on number''))]"
  by (simp add: handleUpdate_def handleUpdate_body_def processUpdate_def Let_def log_msg_def
      client0_def)

theorem handleUpdate_other_number_witness:
  "(5 :: int) \<notin> {-1, 0, 1}
   \<and> entityCache (handleUpdate client0 (Num 5)) = [OfUpdate (Num 5)]
   \<and> sessionEntities (handleUpdate client0 (Num 5)) = [OfUpdate (Num 5)]
   \<and> dispatched (handleUpdate client0 (Num 5)) = dispatched client0"
proof -
  have h: "(5 :: int) \<notin> {-1, 0, 1}" by simp
  show ?thesis
    using h handleUpdate_other_number[OF h, of client0]
    by (simp add: log_msg_def client0_def)
qed

section \<open>The update module: one dispatch round\<close>

lemma log_msg_fields [simp]:
  "called (log_msg l m e c) = called c" "handled (log_msg l m e c) = handled c"
  "errorHandler (log_msg l m e c) = errorHandler c" "getMe (log_msg l m e c) = getMe c"
  "selfInputPeer (log_msg l m e c) = selfInputPeer c"
  "eventBuilders (log_msg l m e c) = eventBuilders c"
  by (simp_all add: log_msg_def)

lemma own_id_resolve_self [simp]: "own_id (resolve_self c) = own_id c"
  by (simp add: own_id_def resolve_self_def split: option.splits sum.splits)

lemma own_id_selfInputPeer: "selfInputPeer (resolve_self c) = own_id c"
  by (simp add: own_id_def)

lemma own_id_log_msg [simp]: "own_id (log_msg l m e c) = own_id c"
  by (simp add: own_id_def resolve_self_def log_msg_def split: option.splits sum.splits)



lemma candidate_attach_error:
  "candidate s u p = Some (f, ev) \<Longrightarrow> attach_error s u p = None"
  by (cases "(s, u, p)" rule: candidate.cases)
     (auto split: if_splits sum.splits option.splits bool.splits)

lemma attach_error_candidate:
  "attach_error s u p = Some e \<Longrightarrow> candidate s u p = None"
  by (cases "candidate s u p") (auto dest: candidate_attach_error)









lemma own_id_dispatched [simp]: "own_id (c\<lparr>dispatched := d\<rparr>) = own_id c"
  by (simp add: own_id_def resolve_self_def split: option.splits sum.splits)

lemma own_id_eventBuilders [simp]: "own_id (c\<lparr>eventBuilders := d\<rparr>) = own_id c"
  by (simp add: own_id_def resolve_self_def split: option.splits sum.splits)






text \<open>
  A round also ends when the client cannot be attached to a built event: for the update 3
  the second builder of \<open>client3\<close> builds a frozen event, the assignment throws, and the
  round rejects with that exception after the first callback, before the filter of the
  second pair and before the third pair. For the update 2 the same registry runs all three
  callbacks.
\<close>

lemma dispatchUpdate_attach_throws:
  "called (fst (dispatchUpdate client3 (args_of 3))) = [(0, event0 3)]
   \<and> snd (dispatchUpdate client3 (args_of 3))
       = Some (TypeError ''Cannot add property _client, object is not extensible'')
   \<and> called (fst (dispatchUpdate client3 (args_of 2)))
       = [(0, event0 2), (1, event0 2), (2, event0 2)]
   \<and> snd (dispatchUpdate client3 (args_of 2)) = None"
  by (simp add: dispatchUpdate_def dispatch_pair_def run_callback_def resolve_self_def
      log_msg_def client3_def client1_def client0_def builder0_def builder1_def args_of_def
      event0_def frozen_def attach_def Let_def)

section \<open>The crypto module\<close>

lemma includes'_append: "includes' (a @ t @ b) t"
proof (induction a)
  case Nil
  have "includes' (t @ b) t"
  proof (cases "t @ b")
    case Nil
    then show ?thesis by simp
  next
    case (Cons x xs)
    have "take (length t) (t @ b) = t" by simp
    with Cons show ?thesis by (metis includes'.simps(2))
  qed
  then show ?case by simp
next
  case (Cons x a)
  then show ?case by simp
qed

text \<open>
  The guard of \<open>createCipher\<close> and \<open>createDecipher\<close>: for every algorithm string in which
  the upper-case letters \<open>ECB\<close> occur they throw "ECB mode is not supported", whatever the
  key and the IV, and before the runtime is asked for a cipher.
\<close>

lemma createCipher_guard:
  assumes "algorithm = a @ ''ECB'' @ b"
  shows "createCipher mkCipher mkDecipher algorithm k v = Inl (Error ''ECB mode is not supported'')"
    and "createDecipher mkCipher mkDecipher algorithm k v = Inl (Error ''ECB mode is not supported'')"
  using assms includes'_append[of a "''ECB''" b]
  by (simp_all add: createCipher_def createDecipher_def)

text \<open>
  Claim C9. The code does not do what the claim says. The guard looks for the upper-case
  letters only, while the runtime's name of the ECB cipher, the one under which \<open>IGE.ts\<close>
  itself asks for it, is \<open>aes-256-ecb\<close>. Given that name with a key of 32 bytes and no
  IV, \<open>createCipher\<close> and \<open>createDecipher\<close> do not throw: they pass the name on to the
  constructor of \<open>CTR\<close>, which takes any algorithm, and return the object that holds the
  ECB cipher and decipher the runtime creates.
\<close>

theorem createCipher_accepts_lower_case_ecb:
  "createCipher node_cipheriv node_cipheriv ''aes-256-ecb'' (replicate 32 0) []
     = Inr \<lparr>cipher = (''aes-256-ecb'', replicate 32 0, []),
            decipher = (''aes-256-ecb'', replicate 32 0, [])\<rparr>
   \<and> createDecipher node_cipheriv node_cipheriv ''aes-256-ecb'' (replicate 32 0) []
     = Inr \<lparr>cipher = (''aes-256-ecb'', replicate 32 0, []),
            decipher = (''aes-256-ecb'', replicate 32 0, [])\<rparr>
   \<and> CTR_new node_cipheriv node_cipheriv (replicate 32 0) [] ''aes-256-ecb''
     = Inr \<lparr>cipher = (''aes-256-ecb'', replicate 32 0, []),
            decipher = (''aes-256-ecb'', replicate 32 0, [])\<rparr>"
  by (simp add: createCipher_def createDecipher_def CTR_new_def node_cipheriv_def)

section \<open>The schema parser\<close>

subsection \<open>Evaluation\<close>

lemma crc_bits_8:
  "crc_bits 8 c = crc_step (crc_step (crc_step (crc_step (crc_step (crc_step (crc_step (crc_step c)))))))"
  by (simp add: eval_nat_numeral)

lemma makeCrcTable_nth: "n < 256 \<Longrightarrow> makeCrcTable ! n = crc_bits 8 (of_nat n)"
  by (simp add: makeCrcTable_def)

lemma minus_one_32: "(- 1 :: 32 word) = 4294967295"
  by simp

lemma crc32_eval: "crc32 buf = unat (crc_loop makeCrcTable buf 0xFFFFFFFF XOR 0xFFFFFFFF)"
  by (simp add: crc32_def minus_one_32[symmetric])

lemmas crc_eval = crc32_eval utf8_def makeCrcTable_nth crc_bits_8 crc_step_def

lemmas regex_eval = search.simps findAll_def findAll_from.simps replace_all_def replace_from.simps
  replace_first_def js_match_def substring_def Plus_def Opt_def
  is_word_def is_space_def is_hex_def is_digit_def is_lower_def not_newline_def str_def
  toUpperCase_def

lemmas parser_eval = parseTl_def patch_auth_key_def trim_def section_re_def CORE_TYPES_def
  AUTH_KEY_TYPES_def fromLine_def definition_re_def field_re_def flag_re_def vector_re_def
  representation_of_def snakeToCamelCase_def variableSnakeToCamelCase_def buildArgConfig_def
  parseInt16_def hex_value_def Number_def Let_def

lemma crc32_check_value: "crc32 (utf8 ''123456789'') = 0xCBF43926"
  by (simp add: crc_eval)

text \<open>
  Claim C1. The code does not do what the claim says. On the line of the claim's own
  example, \<open>foo field:int = Bar;\<close>, both \<open>fromLine\<close> and \<open>parseTl\<close> give the id
  \<open>0xf299a7fc\<close>, which is the checksum of \<open>foo = Bar\<close>, and not \<open>0x68ead2f5\<close>, the
  checksum of \<open>foo field = Bar\<close>: the representation is built from the keys of
  \<open>argsConfig\<close> before any field has been stored there.
\<close>

theorem fromLine_derived_id_without_fields:
  "map_option (map_sum id constructorId) (fromLine ''foo field:int = Bar;'' False)
     = Some (Inr 0xf299a7fc)
   \<and> map_option (map_sum id (map constructorId)) (parseTl ''foo field:int = Bar;'')
     = Some (Inr [0xf299a7fc])
   \<and> crc32 (utf8 ''foo = Bar'') = 0xf299a7fc
   \<and> crc32 (utf8 ''foo field = Bar'') = 0x68ead2f5"
  by (simp add: parser_eval regex_eval crc_eval cong: let_weak_cong)

text \<open>
  Claim C5. The code does not do what the claim says when the explicit id is zero. The line
  \<open>foo#0 = Bar;\<close> carries the id 0 after \<open>#\<close>; \<open>!config.constructorId\<close> holds for 0 as it
  does for a missing id, and the definition gets the derived id \<open>0xf299a7fc\<close>. An id
  other than zero is kept: \<open>foo#1a2B = Bar;\<close> gets \<open>0x1a2b\<close>.
\<close>

theorem fromLine_explicit_zero_id_replaced:
  "map_option (map_sum id constructorId) (fromLine ''foo#0 = Bar;'' False)
     = Some (Inr 0xf299a7fc)
   \<and> map_option (map_sum id (map constructorId)) (parseTl ''foo#0 = Bar;'')
     = Some (Inr [0xf299a7fc])
   \<and> map_option (map_sum id constructorId) (fromLine ''foo#1a2B = Bar;'' False)
     = Some (Inr 0x1a2b)"
  by (simp add: parser_eval regex_eval crc_eval cong: let_weak_cong)

text \<open>
  Claim C6. The code does not do what the claim says. For the line \<open>foo self:int = Bar;\<close>
  the one key of \<open>argsConfig\<close> is \<open>self\<close>: \<open>buildArgConfig\<close> renames its own parameter
  to \<open>is_self\<close> and never uses it again, and the key is computed from the name as it was
  written.
\<close>

theorem fromLine_self_key_not_renamed:
  "map_option (map_sum id (\<lambda>d. map fst (argsConfig d))) (fromLine ''foo self:int = Bar;'' False)
     = Some (Inr [''self''])
   \<and> map_option (map_sum id (map (\<lambda>d. map fst (argsConfig d)))) (parseTl ''foo self:int = Bar;'')
     = Some (Inr [[''self'']])"
  by (simp add: parser_eval regex_eval crc_eval cong: let_weak_cong)

subsection \<open>The parser returns\<close>

lemma ms_advances:
  "\<forall>j g'. (j, g') \<in> set (ms s r st) \<longrightarrow> fst st + minlen r \<le> j"
proof (induction s r st rule: ms.induct)
  case (3 s a b i g)
  show ?case
  proof (intro allI impI)
    fix j g' assume "(j, g') \<in> set (ms s (Seq a b) (i, g))"
    then obtain st where st: "st \<in> set (ms s a (i, g))" and j: "(j, g') \<in> set (ms s b st)"
      by auto
    from "3.IH"(1) st have "i + minlen a \<le> fst st" by (cases st) auto
    moreover from "3.IH"(2)[OF st] j have "fst st + minlen b \<le> j" by auto
    ultimately show "fst (i, g) + minlen (Seq a b) \<le> j" by simp
  qed
next
  case (5 s a i g)
  show ?case
  proof (intro allI impI)
    fix j g' assume "(j, g') \<in> set (ms s (Star a) (i, g))"
    then consider "(j, g') = (i, g)"
      | st where "st \<in> set (ms s a (i, g))" "i < fst st \<and> fst st \<le> length s"
          "(j, g') \<in> set (ms s (Star a) st)"
      by (auto split: if_splits)
    then show "fst (i, g) + minlen (Star a) \<le> j"
    proof cases
      case 1
      then show ?thesis by simp
    next
      case 2
      from "5.IH"(2)[OF 2(1) 2(2)] 2(3) have "fst st \<le> j" by auto
      with 2(2) show ?thesis by simp
    qed
  qed
qed (auto split: if_splits)

lemma search_bounds:
  "search s r i = Some (b, e, g) \<Longrightarrow> i \<le> b \<and> b \<le> length s \<and> b + minlen r \<le> e"
proof (induction s r i rule: search.induct)
  case (1 s r i)
  show ?case
  proof (cases "length s < i")
    case True
    with "1.prems" show ?thesis by (simp add: search.simps)
  next
    case False
    show ?thesis
    proof (cases "ms s r (i, Map.empty)")
      case Nil
      with False "1.prems" have "search s r (i + 1) = Some (b, e, g)"
        by (simp add: search.simps[of s r i])
      from "1.IH"[OF False Nil this] show ?thesis by simp
    next
      case (Cons x xs)
      obtain j h where x: "x = (j, h)" by (cases x)
      with Cons False "1.prems" have eq: "b = i" "e = j" "g = h"
        by (simp_all add: search.simps[of s r i])
      from ms_advances[of s r "(i, Map.empty)"] Cons x have "i + minlen r \<le> j" by auto
      with eq False show ?thesis by simp
    qed
  qed
qed

lemma findAll_from_returns:
  "0 < minlen r \<Longrightarrow> findAll_from r s i \<noteq> None"
proof (induction r s i rule: findAll_from.induct)
  case (1 r s lastIndex)
  show ?case
  proof (cases "search s r lastIndex")
    case None
    then show ?thesis by (simp add: findAll_from.simps[of r s lastIndex])
  next
    case (Some x)
    obtain b e g where x: "x = (b, e, g)" by (cases x)
    from search_bounds[of s r lastIndex b e g] Some x "1.prems"
    have bounds: "lastIndex < e \<and> lastIndex \<le> length s" by auto
    from "1.IH"[OF Some[unfolded x] refl refl bounds "1.prems"]
    have "findAll_from r s e \<noteq> None" .
    with Some x bounds show ?thesis
      by (simp add: findAll_from.simps[of r s lastIndex])
  qed
qed

lemma minlen_field_re: "minlen field_re = 3"
  by (simp add: field_re_def Plus_def Opt_def)

theorem fromLine_returns: "\<exists>r. fromLine line isFn = Some r"
proof -
  have "findAll field_re line \<noteq> None"
    unfolding findAll_def by (rule findAll_from_returns) (simp add: minlen_field_re)
  then obtain a where a: "findAll field_re line = Some a" by auto
  show ?thesis
    by (simp add: fromLine_def a Let_def split: option.splits prod.splits)
qed

lemma parse_lines_returns: "\<exists>r. parse_lines ls isFn parsed = Some r"
proof (induction ls arbitrary: isFn parsed)
  case Nil
  then show ?case by simp
next
  case (Cons l ls)
  define line where "line = trim (case indexOf_from l ''//'' 0 of None \<Rightarrow> l | Some k \<Rightarrow> take k l)"
  obtain r where r: "fromLine line isFn = Some r" using fromLine_returns by blast
  show ?case
    using Cons.IH r
    by (cases r) (auto simp: Let_def line_def[symmetric] split: option.splits)
qed

theorem parseTl_returns: "\<exists>r. parseTl content = Some r"
proof -
  obtain r where "parse_lines (split_on CHR 0x0A [] content) False [] = Some r"
    using parse_lines_returns by blast
  then show ?thesis by (cases r) (simp_all add: parseTl_def)
qed

subsection \<open>Further properties of the parser\<close>

text \<open>
  An id written after \<open>#\<close> that is not zero is the id of the definition: when the
  definition expression matches the line with a second capture \<open>digits\<close>, and these denote
  a number other than zero, a definition that \<open>fromLine\<close> returns has that number as its id.
\<close>

theorem fromLine_explicit_id_kept:
  assumes "js_match line definition_re = Some m" and "m ! 2 = Some digits"
    and "parse_digits 16 hex_value 0 digits \<noteq> 0"
    and "fromLine line isFn = Some (Inr d)"
  shows "constructorId d = parse_digits 16 hex_value 0 digits"
  using assms
  by (auto simp: fromLine_def parseInt16_def Let_def split: option.splits prod.splits if_splits)

theorem fromLine_explicit_id_kept_witness:
  "js_match ''foo#1a2B = Bar;'' definition_re = Some [Some ''foo#1a2B = Bar;'', Some ''foo'', Some ''1a2B'', Some ''Bar'']
   \<and> [Some ''foo#1a2B = Bar;'', Some ''foo'', Some ''1a2B'', Some ''Bar''] ! 2 = Some ''1a2B''
   \<and> parse_digits 16 hex_value 0 ''1a2B'' \<noteq> 0
   \<and> map_option (map_sum id constructorId) (fromLine ''foo#1a2B = Bar;'' False) = Some (Inr 0x1a2b)"
proof -
  have 1: "js_match ''foo#1a2B = Bar;'' definition_re
             = Some [Some ''foo#1a2B = Bar;'', Some ''foo'', Some ''1a2B'', Some ''Bar'']"
    by (simp add: definition_re_def regex_eval)
  have 2: "[Some ''foo#1a2B = Bar;'', Some ''foo'', Some ''1a2B'', Some ''Bar''] ! 2 = Some ''1a2B''"
    by simp
  have 3: "parse_digits 16 hex_value 0 ''1a2B'' \<noteq> 0"
    by (simp add: hex_value_def)
  obtain r where r: "fromLine ''foo#1a2B = Bar;'' False = Some r"
    using fromLine_returns by blast
  have 4: "map_option (map_sum id constructorId) (fromLine ''foo#1a2B = Bar;'' False) = Some (Inr 0x1a2b)"
  proof (cases r)
    case (Inl e)
    with r 1 show ?thesis
      by (auto simp: fromLine_def Let_def regex_eval split: option.splits prod.splits if_splits)
  next
    case (Inr d)
    from fromLine_explicit_id_kept[OF 1 2 3 r[unfolded Inr]] r Inr show ?thesis
      by (simp add: hex_value_def)
  qed
  from 1 2 3 4 show ?thesis by simp
qed

text \<open>
  The derived id never depends on the fields: when the definition expression matches the
  line without a second capture, a definition that \<open>fromLine\<close> returns has as its id the
  checksum of the representation made from the name and the result alone.
\<close>

theorem fromLine_id_of_name_and_result:
  assumes "js_match line definition_re = Some m" and "m ! 2 = None"
    and "fromLine line isFn = Some (Inr d)"
  shows "constructorId d = crc32 (utf8 (representation_of (str (m ! 1)) [] (str (m ! 3))))"
  using assms
  by (auto simp: fromLine_def parseInt16_def Let_def split: option.splits prod.splits if_splits)

theorem fromLine_id_of_name_and_result_witness:
  "js_match ''foo field:int = Bar;'' definition_re
     = Some [Some ''foo field:int = Bar;'', Some ''foo'', None, Some ''Bar'']
   \<and> [Some ''foo field:int = Bar;'', Some ''foo'', None, Some ''Bar''] ! 2 = None
   \<and> map_option (map_sum id constructorId) (fromLine ''foo field:int = Bar;'' False)
       = Some (Inr (crc32 (utf8 (representation_of ''foo'' [] ''Bar''))))"
proof -
  have 1: "js_match ''foo field:int = Bar;'' definition_re
             = Some [Some ''foo field:int = Bar;'', Some ''foo'', None, Some ''Bar'']"
    by (simp add: definition_re_def regex_eval)
  have 2: "[Some ''foo field:int = Bar;'', Some ''foo'', None, Some ''Bar''] ! 2 = None"
    by simp
  obtain r where r: "fromLine ''foo field:int = Bar;'' False = Some r"
    using fromLine_returns by blast
  have 3: "map_option (map_sum id constructorId) (fromLine ''foo field:int = Bar;'' False)
       = Some (Inr (crc32 (utf8 (representation_of ''foo'' [] ''Bar''))))"
  proof (cases r)
    case (Inl e)
    with r 1 show ?thesis
      by (auto simp: fromLine_def Let_def regex_eval split: option.splits prod.splits if_splits)
  next
    case (Inr d)
    from fromLine_id_of_name_and_result[OF 1 2 r[unfolded Inr]] r Inr show ?thesis
      by (simp add: str_def)
  qed
  from 1 2 3 show ?thesis by simp
qed

text \<open>
  The scenario of two definitions with one result type: the two lines parsed together give
  two definitions, in order, both with the result \<open>Bar\<close>.
\<close>

theorem parseTl_two_variants:
  "map_option (map_sum id (map (\<lambda>d. (name d, constructorId d, map fst (argsConfig d), result d))))
     (parseTl (''foo#1 = Bar;'' @ [CHR 0x0A] @ ''baz flag:flags.0?true x:int = Bar;''))
   = Some (Inr [(''Foo'', 1, [], ''Bar''), (''Baz'', 0x8f1957ab, [''flag'', ''x''], ''Bar'')])"
  by (simp add: parser_eval regex_eval crc_eval cong: let_weak_cong)

section \<open>Further properties of the update module\<close>

text \<open>
  A connection-state signal, a number in \<open>{-1, 0, 1}\<close>, is wrapped and dispatched at once,
  with no \<open>others\<close> and no entities, and neither the entity cache nor the session sees it.
\<close>

theorem handleUpdate_connection_state:
  assumes "n \<in> {-1, 0, 1}"
  shows "dispatched (handleUpdate c (Num n))
           = dispatched c @ [\<lparr>update = UpdateConnectionState n, others = None, entities = None\<rparr>]
       \<and> entityCache (handleUpdate c (Num n)) = entityCache c
       \<and> sessionEntities (handleUpdate c (Num n)) = sessionEntities c"
proof -
  let ?a = "\<lparr>update = UpdateConnectionState n, others = None, entities = None\<rparr>"
  obtain c' r where d: "dispatchUpdate c ?a = (c', r)" by (cases "dispatchUpdate c ?a") auto
  from dispatchUpdate_frame[OF d] have "frame c c'" "dispatched c' = dispatched c @ [?a]" by auto
  with assms d show ?thesis
    by (cases r) (auto simp: handleUpdate_def handleUpdate_body_def frame_def log_msg_def)
qed

theorem handleUpdate_connection_state_witness:
  "(1 :: int) \<in> {-1, 0, 1}
   \<and> dispatched (handleUpdate client0 (Num 1))
       = [\<lparr>update = UpdateConnectionState 1, others = None, entities = None\<rparr>]
   \<and> entityCache (handleUpdate client0 (Num 1)) = []"
proof -
  have h: "(1 :: int) \<in> {-1, 0, 1}" by simp
  show ?thesis
    using h handleUpdate_connection_state[OF h, of client0] by (simp add: client0_def)
qed

text \<open>
  Without a state, \<open>catchUp\<close> asks for the state, adopts the reply and returns: no
  difference is requested and nothing is dispatched.
\<close>

theorem catchUp_initializes_state:
  assumes "updateState c = None" and "stateReplies srv = Inr st # rs"
  shows "case catchUp c srv of (c', srv') \<Rightarrow>
           updateState c' = Some (new_state st)
         \<and> requests c' = requests c @ [GetState]
         \<and> dispatched c' = dispatched c
         \<and> differenceReplies srv' = differenceReplies srv"
  using assms by (simp add: catchUp_def catchUp_body_def Let_def)

theorem catchUp_initializes_state_witness:
  "updateState (client0\<lparr>updateState := None\<rparr>) = None
   \<and> stateReplies (server0\<lparr>stateReplies := [Inr \<lparr>pts = 1, qts = 2, date = 3, seq = 4\<rparr>]\<rparr>)
       = Inr \<lparr>pts = 1, qts = 2, date = 3, seq = 4\<rparr> # []
   \<and> updateState (fst (catchUp (client0\<lparr>updateState := None\<rparr>)
                          (server0\<lparr>stateReplies := [Inr \<lparr>pts = 1, qts = 2, date = 3, seq = 4\<rparr>]\<rparr>)))
       = Some \<lparr>pts = 1, qts = 2, date = 3, seq = 4\<rparr>"
proof -
  have h1: "updateState (client0\<lparr>updateState := None\<rparr>) = None" by simp
  have h2: "stateReplies (server0\<lparr>stateReplies := [Inr \<lparr>pts = 1, qts = 2, date = 3, seq = 4\<rparr>]\<rparr>)
       = Inr \<lparr>pts = 1, qts = 2, date = 3, seq = 4\<rparr> # []" by simp
  show ?thesis
    using h1 h2 catchUp_initializes_state[OF h1 h2]
    by (auto simp: new_state_def split: prod.splits)
qed

end
